theory Spec2Isabelle
  imports Main "HOL-Library.Sublist"
begin

section \<open>Timestamper: EXIF timestamp helpers, the metadata accessor and the batch loop\<close>

text \<open>
  A shallow embedding of \<^verbatim>\<open>src/exif_editor.py\<close> (class \<^verbatim>\<open>ExifEditor\<close>) and of
  \<^verbatim>\<open>process_files\<close> in \<^verbatim>\<open>src/timestamper.py\<close>.

  The file names, command lines and tool output are modelled as \<^typ>\<open>string\<close>: lists of
  characters with code points below 256. The text given to \<^verbatim>\<open>strptime\<close> is a list of
  Unicode code points. Python integers are \<^typ>\<open>int\<close>. An exception is a value \<open>Inl e\<close>
  of a sum type, a normal return is \<open>Inr v\<close>.
\<close>

datatype pyerr = ValueError | OverflowError | FileNotFoundError

subsection \<open>Characters and the string methods the code calls\<close>

text \<open>\<^verbatim>\<open>str.isspace\<close> for one character below code point 256:
  TAB, LF, VT, FF, CR, the separators 0x1C..0x1F, SPACE, NEL (0x85) and NBSP (0xA0).\<close>

definition is_space :: "char \<Rightarrow> bool" where
  "is_space c \<longleftrightarrow>
     (let n = (of_char c :: nat)
      in (9 \<le> n \<and> n \<le> 13) \<or> (28 \<le> n \<and> n \<le> 32) \<or> n = 133 \<or> n = 160)"

text \<open>\<^verbatim>\<open>str.strip()\<close>.\<close>

definition strip :: "string \<Rightarrow> string" where
  "strip s = rev (dropWhile is_space (rev (dropWhile is_space s)))"

text \<open>The ASCII digit of a number 0 .. 9, a number printed with two decimal digits, zero
  padded, and a positive number printed in decimal without padding.\<close>

definition digit_char :: "int \<Rightarrow> char" where
  "digit_char d = char_of (48 + nat d)"

definition pad2 :: "int \<Rightarrow> string" where
  "pad2 n = [digit_char (n div 10 mod 10), digit_char (n mod 10)]"

function decimal :: "int \<Rightarrow> string" where
  "decimal n =
     (if n < 10 then [digit_char n]
      else decimal (n div 10) @ [digit_char (n mod 10)])"
  by pat_completeness auto

termination
  by (relation "measure nat") auto

declare decimal.simps [simp del]

subsection \<open>Text as code points, and the Unicode classes of \<^verbatim>\<open>re\<close> and \<^verbatim>\<open>int\<close>\<close>

text \<open>
  The argument of \<^verbatim>\<open>strptime\<close> is any Python \<^verbatim>\<open>str\<close>, and the regular expression classes
  \<^verbatim>\<open>\d\<close> and \<^verbatim>\<open>\s\<close> and the conversion \<^verbatim>\<open>int\<close> look at the Unicode properties of its
  characters. Such a text is a list of code points (integers); \<open>codepoints\<close> is the text with the characters
  of a \<^typ>\<open>string\<close>.

  The tables are those of CPython 3.11 (Unicode 14.0). \<open>DECIMAL_ZEROS\<close> lists the code point
  of the digit zero of each of the 66 runs of ten decimal digits (general category Nd);
  \<open>decimal_value\<close> is \<^verbatim>\<open>unicodedata.decimal\<close>. \<open>SPACES\<close> lists the characters for which
  \<^verbatim>\<open>str.isspace\<close> holds.
\<close>

definition codepoints :: "string \<Rightarrow> int list" where
  "codepoints s = map of_char s"

definition DECIMAL_ZEROS :: "int list" where
  "DECIMAL_ZEROS =
     [0x30, 0x660, 0x6F0, 0x7C0, 0x966, 0x9E6, 0xA66, 0xAE6, 0xB66, 0xBE6, 0xC66, 0xCE6,
      0xD66, 0xDE6, 0xE50, 0xED0, 0xF20, 0x1040, 0x1090, 0x17E0, 0x1810, 0x1946, 0x19D0,
      0x1A80, 0x1A90, 0x1B50, 0x1BB0, 0x1C40, 0x1C50, 0xA620, 0xA8D0, 0xA900, 0xA9D0,
      0xA9F0, 0xAA50, 0xABF0, 0xFF10, 0x104A0, 0x10D30, 0x11066, 0x110F0, 0x11136,
      0x111D0, 0x112F0, 0x11450, 0x114D0, 0x11650, 0x116C0, 0x11730, 0x118E0, 0x11950,
      0x11C50, 0x11D50, 0x11DA0, 0x16A60, 0x16AC0, 0x16B50, 0x1D7CE, 0x1D7D8, 0x1D7E2,
      0x1D7EC, 0x1D7F6, 0x1E140, 0x1E2F0, 0x1E950, 0x1FBF0]"

definition decimal_value :: "int \<Rightarrow> int option" where
  "decimal_value c =
     (case filter (\<lambda>z. z \<le> c \<and> c < z + 10) DECIMAL_ZEROS of
        [] \<Rightarrow> None
      | z # _ \<Rightarrow> Some (c - z))"

text \<open>The class \<^verbatim>\<open>\d\<close> of a Unicode pattern.\<close>

definition is_decimal :: "int \<Rightarrow> bool" where
  "is_decimal c \<longleftrightarrow> decimal_value c \<noteq> None"

definition SPACES :: "int list" where
  "SPACES =
     [0x09, 0x0A, 0x0B, 0x0C, 0x0D, 0x1C, 0x1D, 0x1E, 0x1F, 0x20, 0x85, 0xA0, 0x1680,
      0x2000, 0x2001, 0x2002, 0x2003, 0x2004, 0x2005, 0x2006, 0x2007, 0x2008, 0x2009,
      0x200A, 0x2028, 0x2029, 0x202F, 0x205F, 0x3000]"

text \<open>The class \<^verbatim>\<open>\s\<close> of a Unicode pattern.\<close>

definition is_whitespace :: "int \<Rightarrow> bool" where
  "is_whitespace c \<longleftrightarrow> c \<in> set SPACES"

text \<open>
  \<^verbatim>\<open>int(text)\<close> for a text without sign and underscores (a group of the regular expression
  below has neither): white space around the number is dropped, the rest must be one or
  more decimal digits of any script, else \<^verbatim>\<open>ValueError\<close>. The four separators 0x1C .. 0x1F
  are white space for \<^verbatim>\<open>str.isspace\<close> but not for \<^verbatim>\<open>int\<close>.
\<close>

definition int_space :: "int \<Rightarrow> bool" where
  "int_space c \<longleftrightarrow> is_whitespace c \<and> \<not> (0x1C \<le> c \<and> c \<le> 0x1F)"

definition py_int :: "int list \<Rightarrow> pyerr + int" where
  "py_int s =
     (let digits = rev (dropWhile int_space (rev (dropWhile int_space s)))
      in if digits \<noteq> [] \<and> list_all is_decimal digits
         then Inr (foldl (\<lambda>a c. 10 * a +
                      (case decimal_value c of None \<Rightarrow> 0 | Some v \<Rightarrow> v)) 0 digits)
         else Inl ValueError)"

subsection \<open>\<^verbatim>\<open>datetime.datetime\<close> and \<^verbatim>\<open>datetime.timedelta\<close>\<close>

text \<open>A \<^verbatim>\<open>datetime\<close> object stores its calendar fields; the constructor checks their
  ranges and raises \<^verbatim>\<open>ValueError\<close>.\<close>

record datetime =
  year :: int
  month :: int
  day :: int
  hour :: int
  minute :: int
  second :: int
  microsecond :: int

definition MINYEAR :: int where "MINYEAR = 1"
definition MAXYEAR :: int where "MAXYEAR = 9999"
definition MAXORDINAL :: int where "MAXORDINAL = 3652059"

definition DAYS_IN_MONTH :: "int list" where
  "DAYS_IN_MONTH = [-1, 31, 28, 31, 30, 31, 30, 31, 31, 30, 31, 30, 31]"

definition DAYS_BEFORE_MONTH :: "int list" where
  "DAYS_BEFORE_MONTH = [-1, 0, 31, 59, 90, 120, 151, 181, 212, 243, 273, 304, 334]"

definition is_leap :: "int \<Rightarrow> bool" where
  "is_leap y \<longleftrightarrow> y mod 4 = 0 \<and> (y mod 100 \<noteq> 0 \<or> y mod 400 = 0)"

definition days_before_year :: "int \<Rightarrow> int" where
  "days_before_year y' = (let y = y' - 1 in y * 365 + y div 4 - y div 100 + y div 400)"

definition days_in_month :: "int \<Rightarrow> int \<Rightarrow> int" where
  "days_in_month y m = (if m = 2 \<and> is_leap y then 29 else DAYS_IN_MONTH ! nat m)"

definition days_before_month :: "int \<Rightarrow> int \<Rightarrow> int" where
  "days_before_month y m =
     DAYS_BEFORE_MONTH ! nat m + (if m > 2 \<and> is_leap y then 1 else 0)"

definition ymd2ord :: "int \<Rightarrow> int \<Rightarrow> int \<Rightarrow> int" where
  "ymd2ord y m d = days_before_year y + days_before_month y m + d"

definition DI400Y :: int where "DI400Y = days_before_year 401"
definition DI100Y :: int where "DI100Y = days_before_year 101"
definition DI4Y :: int where "DI4Y = days_before_year 5"

definition ord2ymd :: "int \<Rightarrow> int \<times> int \<times> int" where
  "ord2ymd n0 =
     (let n = n0 - 1;
          n400 = n div DI400Y; n = n mod DI400Y;
          y = n400 * 400 + 1;
          n100 = n div DI100Y; n = n mod DI100Y;
          n4 = n div DI4Y; n = n mod DI4Y;
          n1 = n div 365; n = n mod 365;
          y = y + n100 * 100 + n4 * 4 + n1
      in if n1 = 4 \<or> n100 = 4 then (y - 1, 12, 31)
         else
           let leapyear = (n1 = 3 \<and> (n4 \<noteq> 24 \<or> n100 = 3));
               m = (n + 50) div 32;
               preceding = DAYS_BEFORE_MONTH ! nat m + (if m > 2 \<and> leapyear then 1 else 0);
               (m, preceding) =
                 (if preceding > n
                  then (m - 1, preceding -
                          (DAYS_IN_MONTH ! nat (m - 1) + (if m - 1 = 2 \<and> leapyear then 1 else 0)))
                  else (m, preceding))
           in (y, m, n - preceding + 1))"

text \<open>The checks of the constructor \<^verbatim>\<open>datetime(year, month, day, hour, minute, second)\<close>.\<close>

definition check_date_fields :: "int \<Rightarrow> int \<Rightarrow> int \<Rightarrow> bool" where
  "check_date_fields y m d \<longleftrightarrow>
     MINYEAR \<le> y \<and> y \<le> MAXYEAR \<and> 1 \<le> m \<and> m \<le> 12 \<and> 1 \<le> d \<and> d \<le> days_in_month y m"

definition check_time_fields :: "int \<Rightarrow> int \<Rightarrow> int \<Rightarrow> int \<Rightarrow> bool" where
  "check_time_fields h mi s us \<longleftrightarrow>
     0 \<le> h \<and> h \<le> 23 \<and> 0 \<le> mi \<and> mi \<le> 59 \<and> 0 \<le> s \<and> s \<le> 59 \<and> 0 \<le> us \<and> us \<le> 999999"

definition valid_datetime :: "datetime \<Rightarrow> bool" where
  "valid_datetime dt \<longleftrightarrow>
     check_date_fields (year dt) (month dt) (day dt) \<and>
     check_time_fields (hour dt) (minute dt) (second dt) (microsecond dt)"

definition new_datetime :: "int \<Rightarrow> int \<Rightarrow> int \<Rightarrow> int \<Rightarrow> int \<Rightarrow> int \<Rightarrow> int \<Rightarrow> pyerr + datetime" where
  "new_datetime y m d h mi s us =
     (if check_date_fields y m d \<and> check_time_fields h mi s us
      then Inr \<lparr>year = y, month = m, day = d, hour = h, minute = mi, second = s,
                microsecond = us\<rparr>
      else Inl ValueError)"

text \<open>A \<^verbatim>\<open>timedelta\<close> is its total number of microseconds; the constructor raises
  \<^verbatim>\<open>OverflowError\<close> when the number of days leaves \<open>-999999999 .. 999999999\<close>.\<close>

type_synonym timedelta = int

definition US_PER_DAY :: int where "US_PER_DAY = 86400 * 1000000"

definition new_timedelta :: "int \<Rightarrow> pyerr + timedelta" where
  "new_timedelta us =
     (if - 999999999 \<le> us div US_PER_DAY \<and> us div US_PER_DAY \<le> 999999999
      then Inr us else Inl OverflowError)"

text \<open>\<^verbatim>\<open>interval_delta * file_index\<close>.\<close>

definition timedelta_mul :: "timedelta \<Rightarrow> int \<Rightarrow> pyerr + timedelta" where
  "timedelta_mul td k = new_timedelta (td * k)"

text \<open>\<^verbatim>\<open>start_dt + delta\<close> (\<^verbatim>\<open>datetime.__add__\<close>): the date as its ordinal, the sum
  split again into days and time of day, \<^verbatim>\<open>OverflowError\<close> outside year 1 .. 9999.\<close>

definition datetime_add :: "datetime \<Rightarrow> timedelta \<Rightarrow> pyerr + datetime" where
  "datetime_add dt td =
     (let total = ((ymd2ord (year dt) (month dt) (day dt) * 24 + hour dt) * 60 + minute dt) * 60
                    + second dt;
          total = total * 1000000 + microsecond dt + td;
          days = total div US_PER_DAY;
          rest = total mod US_PER_DAY;
          seconds = rest div 1000000;
          us = rest mod 1000000;
          h = seconds div 3600;
          rem = seconds mod 3600;
          mi = rem div 60;
          s = rem mod 60
      in if 0 < days \<and> days \<le> MAXORDINAL
         then (case ord2ymd days of
                 (y, m, d) \<Rightarrow> Inr \<lparr>year = y, month = m, day = d, hour = h, minute = mi,
                                   second = s, microsecond = us\<rparr>)
         else Inl OverflowError)"

subsection \<open>\<^verbatim>\<open>strptime\<close> and \<^verbatim>\<open>strftime\<close> for the format \<^verbatim>\<open>%Y:%m:%d %H:%M:%S\<close>\<close>

text \<open>
  \<^verbatim>\<open>datetime.strptime\<close> compiles the format into the regular expression
  \<^verbatim>\<open>(?P<Y>\d\d\d\d):(?P<m>1[0-2]|0[1-9]|[1-9]):(?P<d>3[0-1]|[1-2]\d|0[1-9]|[1-9]| [1-9])\s+\<close>
  \<^verbatim>\<open>(?P<H>2[0-3]|[0-1]\d|\d):(?P<M>[0-5]\d|\d):(?P<S>6[0-1]|[0-5]\d|\d)\<close>,
  matches it at the start of the text, raises \<^verbatim>\<open>ValueError\<close> when there is no match or
  when text remains after the match, converts the groups with \<^verbatim>\<open>int\<close> and passes the
  numbers to the constructor. A literal character and a set such as \<^verbatim>\<open>[0-2]\<close> match ASCII
  characters only; \<^verbatim>\<open>\d\<close> and \<^verbatim>\<open>\s\<close> match the Unicode classes.

  A matcher returns every way to match a prefix of the text, as the captured text and the
  rest, in the order in which the backtracking matcher tries them; the match is the first
  one of the whole expression.
\<close>

type_synonym matcher = "int list \<Rightarrow> (int list \<times> int list) list"

definition one :: "(int \<Rightarrow> bool) \<Rightarrow> matcher" where
  "one p s = (case s of a # r \<Rightarrow> if p a then [([a], r)] else [] | _ \<Rightarrow> [])"

definition two :: "(int \<Rightarrow> bool) \<Rightarrow> (int \<Rightarrow> bool) \<Rightarrow> matcher" where
  "two p q s = (case s of a # b # r \<Rightarrow> if p a \<and> q b then [([a, b], r)] else [] | _ \<Rightarrow> [])"

definition alt :: "matcher \<Rightarrow> matcher \<Rightarrow> matcher" where
  "alt f g s = f s @ g s"

definition lit :: "char \<Rightarrow> int \<Rightarrow> bool" where
  "lit c a \<longleftrightarrow> a = of_char c"

definition in_range :: "char \<Rightarrow> char \<Rightarrow> int \<Rightarrow> bool" where
  "in_range lo hi a \<longleftrightarrow> of_char lo \<le> a \<and> a \<le> of_char hi"

definition re_Y :: matcher where
  "re_Y s = (case s of a # b # c # d # r \<Rightarrow>
               if is_decimal a \<and> is_decimal b \<and> is_decimal c \<and> is_decimal d
               then [([a, b, c, d], r)] else []
             | _ \<Rightarrow> [])"

definition re_m :: matcher where
  "re_m = alt (two (lit CHR ''1'') (in_range CHR ''0'' CHR ''2''))
         (alt (two (lit CHR ''0'') (in_range CHR ''1'' CHR ''9''))
              (one (in_range CHR ''1'' CHR ''9'')))"

definition re_d :: matcher where
  "re_d = alt (two (lit CHR ''3'') (in_range CHR ''0'' CHR ''1''))
         (alt (two (in_range CHR ''1'' CHR ''2'') is_decimal)
         (alt (two (lit CHR ''0'') (in_range CHR ''1'' CHR ''9''))
         (alt (one (in_range CHR ''1'' CHR ''9''))
              (two (lit CHR '' '') (in_range CHR ''1'' CHR ''9'')))))"

definition re_H :: matcher where
  "re_H = alt (two (lit CHR ''2'') (in_range CHR ''0'' CHR ''3''))
         (alt (two (in_range CHR ''0'' CHR ''1'') is_decimal)
              (one is_decimal))"

definition re_M :: matcher where
  "re_M = alt (two (in_range CHR ''0'' CHR ''5'') is_decimal) (one is_decimal)"

definition re_S :: matcher where
  "re_S = alt (two (lit CHR ''6'') (in_range CHR ''0'' CHR ''1''))
         (alt (two (in_range CHR ''0'' CHR ''5'') is_decimal)
              (one is_decimal))"

text \<open>\<^verbatim>\<open>\s+\<close> is greedy: the longest run of white space first, then shorter ones.\<close>

definition re_ws :: matcher where
  "re_ws s =
     map (\<lambda>k. (take k s, drop k s)) (rev [1 ..< Suc (length (takeWhile is_whitespace s))])"

definition re_colon :: matcher where
  "re_colon = one (lit CHR '':'')"

text \<open>The whole expression: the six captured groups and the text after the match.\<close>

definition format_regex_matches ::
  "int list \<Rightarrow>
     (int list \<times> int list \<times> int list \<times> int list \<times> int list \<times> int list \<times> int list) list" where
  "format_regex_matches s0 =
     List.bind (re_Y s0) (\<lambda>(Y, s1).
     List.bind (re_colon s1) (\<lambda>(_, s2).
     List.bind (re_m s2) (\<lambda>(m, s3).
     List.bind (re_colon s3) (\<lambda>(_, s4).
     List.bind (re_d s4) (\<lambda>(d, s5).
     List.bind (re_ws s5) (\<lambda>(_, s6).
     List.bind (re_H s6) (\<lambda>(H, s7).
     List.bind (re_colon s7) (\<lambda>(_, s8).
     List.bind (re_M s8) (\<lambda>(M, s9).
     List.bind (re_colon s9) (\<lambda>(_, s10).
     List.bind (re_S s10) (\<lambda>(S, s11).
       [(Y, m, d, H, M, S, s11)])))))))))))"

text \<open>The six conversions \<^verbatim>\<open>int(found_dict[...])\<close>, in the order of the format.\<close>

definition group_values ::
  "int list list \<Rightarrow> pyerr + int list" where
  "group_values groups =
     foldr (\<lambda>g acc. case py_int g of
                       Inl e \<Rightarrow> Inl e
                     | Inr v \<Rightarrow> (case acc of Inl e \<Rightarrow> Inl e | Inr vs \<Rightarrow> Inr (v # vs)))
           groups (Inr [])"

definition strptime :: "int list \<Rightarrow> pyerr + datetime" where
  "strptime data_string =
     (case format_regex_matches data_string of
        [] \<Rightarrow> Inl ValueError
      | (Y, m, d, H, M, S, rest) # _ \<Rightarrow>
          if rest \<noteq> [] then Inl ValueError
          else case group_values [Y, m, d, H, M, S] of
                 Inr [y, mo, dd, h, mi, sec] \<Rightarrow> new_datetime y mo dd h mi sec 0
               | _ \<Rightarrow> Inl ValueError)"

text \<open>
  \<^verbatim>\<open>dt_obj.strftime('%Y:%m:%d %H:%M:%S')\<close> calls \<^verbatim>\<open>strftime\<close> of the C library. That of
  glibc prints \<^verbatim>\<open>%m %d %H %M %S\<close> with two digits, zero padded, and \<^verbatim>\<open>%Y\<close> as the plain
  decimal number: a year below 1000 has fewer than four digits.
\<close>

definition strftime :: "datetime \<Rightarrow> string" where
  "strftime dt =
     decimal (year dt) @ '':'' @ pad2 (month dt) @ '':'' @ pad2 (day dt) @ '' '' @
     pad2 (hour dt) @ '':'' @ pad2 (minute dt) @ '':'' @ pad2 (second dt)"

subsection \<open>The static helpers of \<^verbatim>\<open>ExifEditor\<close>\<close>

definition parse_datetime :: "int list \<Rightarrow> pyerr + datetime" where
  "parse_datetime dt_str = strptime dt_str"

definition format_datetime :: "datetime \<Rightarrow> string" where
  "format_datetime dt_obj = strftime dt_obj"

text \<open>\<^verbatim>\<open>try: parse_datetime(dt_str); return True; except ValueError: return False\<close>;
  any other exception propagates.\<close>

definition is_valid_datetime_format :: "int list \<Rightarrow> pyerr + bool" where
  "is_valid_datetime_format dt_str =
     (case parse_datetime dt_str of
        Inr _ \<Rightarrow> Inr True
      | Inl ValueError \<Rightarrow> Inr False
      | Inl e \<Rightarrow> Inl e)"

subsection \<open>The canonical textual form\<close>

text \<open>
  The specification's canonical form \<^verbatim>\<open>YYYY:MM:DD HH:MM:SS\<close>: nineteen characters, the
  digits \<^verbatim>\<open>0\<close> .. \<^verbatim>\<open>9\<close> in the fourteen digit positions, colons and one space in between.
  \<open>canonical_fields\<close> reads the six numbers off such a string. A canonical string names a
  valid calendar date and time when the year is at least 1 (the Gregorian calendar of
  \<^verbatim>\<open>datetime\<close> has no year 0), the month is 1 .. 12, the day exists in that month of that
  year, and the time is at most 23:59:59.
\<close>

definition is_digit :: "char \<Rightarrow> bool" where
  "is_digit c \<longleftrightarrow> (48::nat) \<le> of_char c \<and> (of_char c :: nat) \<le> 57"

definition digit_val :: "char \<Rightarrow> int" where
  "digit_val c = int (of_char c) - 48"

definition two_val :: "char \<Rightarrow> char \<Rightarrow> int" where
  "two_val a b = 10 * digit_val a + digit_val b"

definition canonical_fields :: "string \<Rightarrow> (int \<times> int \<times> int \<times> int \<times> int \<times> int) option" where
  "canonical_fields s =
     (case s of
        [y1, y2, y3, y4, c1, m1, m2, c2, d1, d2, sp, h1, h2, c3, n1, n2, c4, s1, s2] \<Rightarrow>
          if list_all is_digit [y1, y2, y3, y4, m1, m2, d1, d2, h1, h2, n1, n2, s1, s2] \<and>
             c1 = CHR '':'' \<and> c2 = CHR '':'' \<and> sp = CHR '' '' \<and> c3 = CHR '':'' \<and> c4 = CHR '':''
          then Some (100 * two_val y1 y2 + two_val y3 y4, two_val m1 m2, two_val d1 d2,
                     two_val h1 h2, two_val n1 n2, two_val s1 s2)
          else None
      | _ \<Rightarrow> None)"

definition canonical_valid :: "string \<Rightarrow> bool" where
  "canonical_valid s \<longleftrightarrow>
     (case canonical_fields s of
        None \<Rightarrow> False
      | Some (y, m, d, h, mi, sec) \<Rightarrow>
          1 \<le> y \<and> 1 \<le> m \<and> m \<le> 12 \<and> 1 \<le> d \<and> d \<le> days_in_month y m \<and>
          h \<le> 23 \<and> mi \<le> 59 \<and> sec \<le> 59)"

subsection \<open>More string methods: \<^verbatim>\<open>splitlines\<close>, \<^verbatim>\<open>split(': ', 1)\<close>, \<^verbatim>\<open>os.path.basename\<close>\<close>

text \<open>The line boundaries of \<^verbatim>\<open>str.splitlines\<close> below code point 256: LF, VT, FF, CR,
  0x1C, 0x1D, 0x1E and NEL (0x85); CR LF counts as one boundary.\<close>

definition is_linebreak :: "char \<Rightarrow> bool" where
  "is_linebreak c \<longleftrightarrow>
     (let n = (of_char c :: nat) in (10 \<le> n \<and> n \<le> 13) \<or> (28 \<le> n \<and> n \<le> 30) \<or> n = 133)"

fun splitlines_from :: "string \<Rightarrow> string \<Rightarrow> string list" where
  "splitlines_from cur [] = (if cur = [] then [] else [rev cur])"
| "splitlines_from cur [c] = (if is_linebreak c then [rev cur] else [rev (c # cur)])"
| "splitlines_from cur (c # d # cs) =
     (if c = CHR 0x0D \<and> d = CHR 0x0A then rev cur # splitlines_from [] cs
      else if is_linebreak c then rev cur # splitlines_from [] (d # cs)
      else splitlines_from (c # cur) (d # cs))"

definition splitlines :: "string \<Rightarrow> string list" where
  "splitlines s = splitlines_from [] s"

text \<open>\<^verbatim>\<open>line.split(': ', 1)\<close> when \<^verbatim>\<open>': ' in line\<close>: the text before and after the first
  occurrence of a colon followed by a space; \<open>None\<close> when there is none.\<close>

fun split_colon_space :: "string \<Rightarrow> (string \<times> string) option" where
  "split_colon_space [] = None"
| "split_colon_space [c] = None"
| "split_colon_space (c # d # cs) =
     (if c = CHR '':'' \<and> d = CHR '' '' then Some ([], cs)
      else map_option (\<lambda>(a, b). (c # a, b)) (split_colon_space (d # cs)))"

text \<open>\<^verbatim>\<open>os.path.basename\<close> (POSIX): the text after the last slash.\<close>

definition basename :: "string \<Rightarrow> string" where
  "basename p = rev (takeWhile (\<lambda>c. c \<noteq> CHR ''/'') (rev p))"

subsection \<open>The environment: the file system and the \<^verbatim>\<open>exiftool\<close> process\<close>

text \<open>
  \<^verbatim>\<open>ExifEditor\<close> reaches the outside through three calls: \<^verbatim>\<open>os.path.isfile\<close>,
  \<^verbatim>\<open>os.access(path, os.W_OK)\<close> and \<^verbatim>\<open>subprocess.run(command)\<close>. They are a parameter of the
  model, over any type \<open>'w\<close> of states of the outside world. \<^verbatim>\<open>subprocess.run\<close> returns the
  standard output, the standard error and the return code of the process, or raises
  \<^verbatim>\<open>FileNotFoundError\<close> (no such executable), or raises another exception with a message.
\<close>

datatype proc_result = Completed string string int | NotFound | Crashed string

record 'w system =
  isfile :: "'w \<Rightarrow> string \<Rightarrow> bool"
  access_w :: "'w \<Rightarrow> string \<Rightarrow> bool"
  run :: "'w \<Rightarrow> string list \<Rightarrow> proc_result \<times> 'w"

text \<open>The messages \<^verbatim>\<open>process_files\<close> logs for one file, one constructor for each logging
  call of the loop body, with the values the message is formatted from.\<close>

datatype log_entry =
    LogProcessing int int string
  | LogSkipUnreadable string
  | LogSkipNotWritable string
  | LogOriginal string
  | LogCalculated string
  | LogComment string
  | LogDryRun string
  | LogUpdated string
  | LogFailed string
  | LogFileNotFound string
  | LogError string pyerr

text \<open>What a run does, in order: every call of the environment with its result, and every
  message logged by the loop.\<close>

datatype event =
    Isfile string bool
  | Access string bool
  | Exec "string list" proc_result
  | Log log_entry

record 'w state =
  world :: 'w
  trace :: "event list"

definition emit :: "event \<Rightarrow> 'w state \<Rightarrow> 'w state" where
  "emit ev s = s\<lparr>trace := trace s @ [ev]\<rparr>"

subsection \<open>\<^verbatim>\<open>class ExifEditor\<close>\<close>

text \<open>The attributes \<^verbatim>\<open>file_path\<close>, \<^verbatim>\<open>_date_time_original\<close>, \<^verbatim>\<open>_user_comment\<close>,
  \<^verbatim>\<open>_writable\<close> and \<^verbatim>\<open>_metadata_read\<close>; \<open>None\<close> is Python's \<^verbatim>\<open>None\<close>. A method takes the
  object and the state and returns its result (or the exception it raises), the object
  and the state. The logging calls inside the class are left out.\<close>

record exif_editor =
  file_path :: string
  priv_date_time_original :: "string option"
  priv_user_comment :: "string option"
  priv_writable :: "bool option"
  priv_metadata_read :: bool

definition EXIFTOOL_COMMAND :: string where
  "EXIFTOOL_COMMAND = ''exiftool''"

definition ExifEditor_init :: "'w system \<Rightarrow> string \<Rightarrow> 'w state \<Rightarrow> (pyerr + exif_editor) \<times> 'w state" where
  "ExifEditor_init S path s =
     (let found = isfile S (world s) path;
          s = emit (Isfile path found) s
      in if \<not> found then (Inl FileNotFoundError, s)
         else (Inr \<lparr>file_path = path, priv_date_time_original = None, priv_user_comment = None,
                    priv_writable = None, priv_metadata_read = False\<rparr>, s))"

definition run_exiftool ::
  "'w system \<Rightarrow> exif_editor \<Rightarrow> string list \<Rightarrow> 'w state \<Rightarrow> (pyerr + string \<times> string \<times> int) \<times> 'w state" where
  "run_exiftool S self args s =
     (let command = [EXIFTOOL_COMMAND] @ args @ [file_path self];
          (r, w) = run S (world s) command;
          s = emit (Exec command r) (s\<lparr>world := w\<rparr>)
      in case r of
           Completed out err returncode \<Rightarrow> (Inr (strip out, strip err, returncode), s)
         | NotFound \<Rightarrow> (Inl FileNotFoundError, s)
         | Crashed msg \<Rightarrow> (Inr ('''', msg, 1), s))"

definition READ_ARGS :: "string list" where
  "READ_ARGS = [''-s'', ''-s'', ''-DateTimeOriginal'', ''-UserComment'']"

definition PROBE_ARGS :: "string list" where
  "PROBE_ARGS = [''-m'', ''-overwrite_original_in_place'', ''-UserComment='']"

text \<open>The loop over the lines of the output that fills the dictionary \<^verbatim>\<open>metadata\<close>.\<close>

definition parse_tags :: "string list \<Rightarrow> (string \<rightharpoonup> string)" where
  "parse_tags lines =
     foldl (\<lambda>metadata line.
              case split_colon_space line of
                None \<Rightarrow> metadata
              | Some (tag, val) \<Rightarrow> metadata(strip tag \<mapsto> strip val))
           Map.empty lines"

definition read_metadata ::
  "'w system \<Rightarrow> exif_editor \<Rightarrow> 'w state \<Rightarrow> (pyerr + bool) \<times> exif_editor \<times> 'w state" where
  "read_metadata S self s =
     (if priv_metadata_read self then (Inr True, self, s)
      else case run_exiftool S self READ_ARGS s of
             (Inl e, s) \<Rightarrow> (Inl e, self, s)
           | (Inr (stdout, stderr, return_code), s) \<Rightarrow>
               if return_code \<noteq> 0 then (Inr False, self, s)
               else
                 let metadata = parse_tags (splitlines stdout)
                 in (Inr True,
                     self\<lparr>priv_date_time_original := metadata ''DateTimeOriginal'',
                          priv_user_comment :=
                            Some (case metadata ''UserComment'' of None \<Rightarrow> '''' | Some v \<Rightarrow> v),
                          priv_metadata_read := True\<rparr>,
                     s))"

text \<open>The properties \<^verbatim>\<open>date_time_original\<close> and \<^verbatim>\<open>user_comment\<close>.\<close>

definition date_time_original ::
  "'w system \<Rightarrow> exif_editor \<Rightarrow> 'w state \<Rightarrow> (pyerr + string option) \<times> exif_editor \<times> 'w state" where
  "date_time_original S self s =
     (if \<not> priv_metadata_read self
      then case read_metadata S self s of
             (Inl e, self, s) \<Rightarrow> (Inl e, self, s)
           | (Inr _, self, s) \<Rightarrow> (Inr (priv_date_time_original self), self, s)
      else (Inr (priv_date_time_original self), self, s))"

text \<open>\<^verbatim>\<open>self._user_comment if self._user_comment is not None else ""\<close>.\<close>

definition user_comment_value :: "exif_editor \<Rightarrow> string" where
  "user_comment_value self = (case priv_user_comment self of None \<Rightarrow> [] | Some c \<Rightarrow> c)"

definition user_comment ::
  "'w system \<Rightarrow> exif_editor \<Rightarrow> 'w state \<Rightarrow> (pyerr + string) \<times> exif_editor \<times> 'w state" where
  "user_comment S self s =
     (if \<not> priv_metadata_read self
      then case read_metadata S self s of
             (Inl e, self, s) \<Rightarrow> (Inl e, self, s)
           | (Inr _, self, s) \<Rightarrow> (Inr (user_comment_value self), self, s)
      else (Inr (user_comment_value self), self, s))"

definition is_writable ::
  "'w system \<Rightarrow> exif_editor \<Rightarrow> 'w state \<Rightarrow> (pyerr + bool) \<times> exif_editor \<times> 'w state" where
  "is_writable S self s =
     (case priv_writable self of
        Some b \<Rightarrow> (Inr b, self, s)
      | None \<Rightarrow>
          let ok = access_w S (world s) (file_path self);
              s = emit (Access (file_path self) ok) s
          in if \<not> ok then (Inr False, self\<lparr>priv_writable := Some False\<rparr>, s)
             else case run_exiftool S self PROBE_ARGS s of
                    (Inl e, s) \<Rightarrow> (Inl e, self, s)
                  | (Inr (_, stderr, return_code), s) \<Rightarrow>
                      if return_code = 0 then (Inr True, self\<lparr>priv_writable := Some True\<rparr>, s)
                      else (Inr False, self\<lparr>priv_writable := Some False\<rparr>, s))"

text \<open>The arguments of the combined write, and the comment it writes (lines 157 to 168).\<close>

definition new_comment_of :: "string \<Rightarrow> string \<Rightarrow> string" where
  "new_comment_of current_comment comment_addition =
     (let separator = (if current_comment \<noteq> '''' \<and> comment_addition \<noteq> '''' then '' '' else '''')
      in current_comment @ separator @ comment_addition)"

definition update_args :: "string \<Rightarrow> string \<Rightarrow> string list" where
  "update_args new_datetime_str new_comment =
     [''-m'', ''-overwrite_original_in_place'',
      ''-DateTimeOriginal='' @ new_datetime_str,
      ''-UserComment='' @ new_comment]"

definition update_datetime_and_comment ::
  "'w system \<Rightarrow> exif_editor \<Rightarrow> string \<Rightarrow> string \<Rightarrow> 'w state \<Rightarrow>
     (pyerr + bool) \<times> exif_editor \<times> 'w state" where
  "update_datetime_and_comment S self new_datetime_str comment_addition s =
     (case is_writable S self s of
        (Inl e, self, s) \<Rightarrow> (Inl e, self, s)
      | (Inr writable, self, s) \<Rightarrow>
          if \<not> writable then (Inr False, self, s)
          else
            case (if \<not> priv_metadata_read self then read_metadata S self s
                  else (Inr True, self, s)) of
              (Inl e, self, s) \<Rightarrow> (Inl e, self, s)
            | (Inr have_metadata, self, s) \<Rightarrow>
                if \<not> have_metadata then (Inr False, self, s)
                else
                  case user_comment S self s of
                    (Inl e, self, s) \<Rightarrow> (Inl e, self, s)
                  | (Inr current_comment, self, s) \<Rightarrow>
                      let new_comment = new_comment_of current_comment comment_addition;
                          args = update_args new_datetime_str new_comment
                      in case run_exiftool S self args s of
                           (Inl e, s) \<Rightarrow> (Inl e, self, s)
                         | (Inr (stdout, stderr, return_code), s) \<Rightarrow>
                             if return_code = 0
                             then (Inr True,
                                   self\<lparr>priv_date_time_original := Some new_datetime_str,
                                        priv_user_comment := Some new_comment\<rparr>,
                                   s)
                             else (Inr False, self, s))"

subsection \<open>\<^verbatim>\<open>process_files\<close>\<close>

text \<open>The local variables of the loop that outlive one iteration, and the state.\<close>

record 'w loop =
  processed_count :: int
  skipped_count :: int
  error_count :: int
  file_index :: int
  sys :: "'w state"

text \<open>The two \<^verbatim>\<open>except\<close> clauses of the loop body: log the error, count it.\<close>

definition on_exception :: "string \<Rightarrow> pyerr \<Rightarrow> 'w state \<Rightarrow> 'w loop \<Rightarrow> 'w loop" where
  "on_exception filename e s L =
     L\<lparr>error_count := error_count L + 1,
       sys := emit (Log (case e of FileNotFoundError \<Rightarrow> LogFileNotFound filename
                               | _ \<Rightarrow> LogError filename e)) s\<rparr>"

text \<open>How an f-string prints a value that is a string or \<^verbatim>\<open>None\<close>.\<close>

definition py_str :: "string option \<Rightarrow> string" where
  "py_str v = (case v of None \<Rightarrow> ''None'' | Some t \<Rightarrow> t)"

text \<open>\<^verbatim>\<open>AdjustedDateTime_{fix_id}[{original_dt_str} -> {new_datetime_str}]\<close>.\<close>

definition fix_comment_of :: "string \<Rightarrow> string \<Rightarrow> string \<Rightarrow> string" where
  "fix_comment_of fix_id original_dt_str new_datetime_str =
     ''AdjustedDateTime_'' @ fix_id @ ''['' @ original_dt_str @ '' -> '' @ new_datetime_str @ '']''"

text \<open>
  One iteration of the loop, for the file at position \<open>index\<close> of \<open>n_files\<close> files.
  \<open>interval_delta\<close> is \<^verbatim>\<open>datetime.timedelta(seconds=interval_sec)\<close>, computed once before the
  loop (the conversion from the floating point number is outside the model).
\<close>

definition process_file ::
  "'w system \<Rightarrow> datetime \<Rightarrow> timedelta \<Rightarrow> string \<Rightarrow> bool \<Rightarrow> int \<Rightarrow> int \<Rightarrow> string \<Rightarrow>
     'w loop \<Rightarrow> 'w loop" where
  "process_file S start_dt interval_delta fix_id dry_run n_files index path L =
     (let filename = basename path;
          s = emit (Log (LogProcessing (index + 1) n_files filename)) (sys L)
      in
      case ExifEditor_init S path s of
        (Inl e, s) \<Rightarrow> on_exception filename e s L
      | (Inr editor, s) \<Rightarrow>
      case read_metadata S editor s of
        (Inl e, editor, s) \<Rightarrow> on_exception filename e s L
      | (Inr have_metadata, editor, s) \<Rightarrow>
      if \<not> have_metadata
      then L\<lparr>skipped_count := skipped_count L + 1,
             sys := emit (Log (LogSkipUnreadable filename)) s\<rparr>
      else
      case (if \<not> dry_run then is_writable S editor s else (Inr True, editor, s)) of
        (Inl e, editor, s) \<Rightarrow> on_exception filename e s L
      | (Inr writable, editor, s) \<Rightarrow>
      if \<not> dry_run \<and> \<not> writable
      then L\<lparr>skipped_count := skipped_count L + 1,
             sys := emit (Log (LogSkipNotWritable filename)) s\<rparr>
      else
      case timedelta_mul interval_delta (file_index L) of
        Inl e \<Rightarrow> on_exception filename e s L
      | Inr delta \<Rightarrow>
      case datetime_add start_dt delta of
        Inl e \<Rightarrow> on_exception filename e s L
      | Inr current_dt \<Rightarrow>
      let new_datetime_str = format_datetime current_dt in
      case date_time_original S editor s of
        (Inl e, editor, s) \<Rightarrow> on_exception filename e s L
      | (Inr dto, editor, s) \<Rightarrow>
      case (if dto \<noteq> None \<and> dto \<noteq> Some '''' then date_time_original S editor s
            else (Inr (Some ''None''), editor, s)) of
        (Inl e, editor, s) \<Rightarrow> on_exception filename e s L
      | (Inr original, editor, s) \<Rightarrow>
      let original_dt_str = py_str original;
          fix_comment = fix_comment_of fix_id original_dt_str new_datetime_str;
          s = emit (Log (LogOriginal original_dt_str)) s;
          s = emit (Log (LogCalculated new_datetime_str)) s;
          s = emit (Log (LogComment fix_comment)) s
      in
      if dry_run
      then L\<lparr>processed_count := processed_count L + 1,
             sys := emit (Log (LogDryRun filename)) s\<rparr>
      else
      case update_datetime_and_comment S editor new_datetime_str fix_comment s of
        (Inl e, editor, s) \<Rightarrow> on_exception filename e s L
      | (Inr updated, editor, s) \<Rightarrow>
      if updated
      then L\<lparr>processed_count := processed_count L + 1,
             file_index := file_index L + 1,
             sys := emit (Log (LogUpdated filename)) s\<rparr>
      else L\<lparr>error_count := error_count L + 1,
             sys := emit (Log (LogFailed filename)) s\<rparr>)"

text \<open>\<^verbatim>\<open>for index, file_path in enumerate(files)\<close>, from position \<open>index\<close> on.\<close>

fun process_loop ::
  "'w system \<Rightarrow> datetime \<Rightarrow> timedelta \<Rightarrow> string \<Rightarrow> bool \<Rightarrow> int \<Rightarrow> int \<Rightarrow> string list \<Rightarrow>
     'w loop \<Rightarrow> 'w loop" where
  "process_loop S start_dt interval_delta fix_id dry_run n_files index [] L = L"
| "process_loop S start_dt interval_delta fix_id dry_run n_files index (path # files) L =
     process_loop S start_dt interval_delta fix_id dry_run n_files (index + 1) files
       (process_file S start_dt interval_delta fix_id dry_run n_files index path L)"

text \<open>The counters before the first file.\<close>

definition loop_start :: "'w state \<Rightarrow> 'w loop" where
  "loop_start s =
     \<lparr>processed_count = 0, skipped_count = 0, error_count = 0, file_index = 0, sys = s\<rparr>"

text \<open>The function returns nothing; the model returns the counters of the summary and the
  state after the last file. The summary lines are left out.\<close>

definition process_files ::
  "'w system \<Rightarrow> string list \<Rightarrow> datetime \<Rightarrow> timedelta \<Rightarrow> string \<Rightarrow> bool \<Rightarrow> 'w state \<Rightarrow> 'w loop" where
  "process_files S files start_dt interval_delta fix_id dry_run s =
     process_loop S start_dt interval_delta fix_id dry_run (int (length files)) 0 files
       (loop_start s)"

subsection \<open>Reading the trace\<close>

text \<open>
  \<open>succeeded\<close>: the process ran and returned code 0. \<open>command_of\<close>: the command line
  \<^verbatim>\<open>_run_exiftool\<close> builds. \<open>commit_of\<close>: for a combined write that succeeded, the file, the
  timestamp and the comment it wrote; \<open>committed\<close> lists them in the order of the trace.
\<close>

fun succeeded :: "proc_result \<Rightarrow> bool" where
  "succeeded (Completed out err returncode) = (returncode = 0)"
| "succeeded _ = False"

definition command_of :: "exif_editor \<Rightarrow> string list \<Rightarrow> string list" where
  "command_of self args = [EXIFTOOL_COMMAND] @ args @ [file_path self]"

fun commit_of :: "event \<Rightarrow> (string \<times> string \<times> string) option" where
  "commit_of (Exec [exe, a, b, c, d, p] r) =
     (if succeeded r \<and> a = ''-m'' \<and> b = ''-overwrite_original_in_place'' \<and>
         take 18 c = ''-DateTimeOriginal='' \<and> take 13 d = ''-UserComment=''
      then Some (p, drop 18 c, drop 13 d) else None)"
| "commit_of _ = None"

definition committed :: "event list \<Rightarrow> (string \<times> string \<times> string) list" where
  "committed tr = List.map_filter commit_of tr"

text \<open>\<open>attempted_update\<close>: the event is a run of the combined write, whatever its result.\<close>

fun attempted_update :: "event \<Rightarrow> bool" where
  "attempted_update (Exec command r) = (commit_of (Exec command (Completed [] [] 0)) \<noteq> None)"
| "attempted_update _ = False"

subsection \<open>A simulated environment\<close>

text \<open>
  A model of the outside world for concrete runs (it is not code of the repository): files
  by path, each with the two tags, and four switches that decide whether the operating
  system grants write access and whether \<^verbatim>\<open>exiftool\<close> can read the tags, can write a tag
  (the trial write) and can write the combined update. As the specification describes the
  tool: reading prints one line \<^verbatim>\<open>Tag: value\<close> for each tag that is present; a write
  \<^verbatim>\<open>-Tag=value\<close> stores the value, and an empty value removes the tag; success is return
  code 0. Line breaks inside a value are printed as a dot.
\<close>

record sim_file =
  os_writable :: bool
  tool_reads :: bool
  tool_writes :: bool
  tool_commits :: bool
  tag_datetime :: "string option"
  tag_comment :: "string option"

type_synonym sim_world = "string \<Rightarrow> sim_file option"

definition sanitize :: "string \<Rightarrow> string" where
  "sanitize v = map (\<lambda>c. if is_linebreak c then CHR ''.'' else c) v"

definition sim_output :: "sim_file \<Rightarrow> string" where
  "sim_output f =
     (case tag_datetime f of None \<Rightarrow> [] | Some v \<Rightarrow> ''DateTimeOriginal: '' @ sanitize v @ [CHR 0x0A]) @
     (case tag_comment f of None \<Rightarrow> [] | Some v \<Rightarrow> ''UserComment: '' @ sanitize v @ [CHR 0x0A])"

definition sim_tag :: "string \<Rightarrow> string option" where
  "sim_tag v = (if v = [] then None else Some v)"

definition sim_run :: "sim_world \<Rightarrow> string list \<Rightarrow> proc_result \<times> sim_world" where
  "sim_run w command =
     (if command = [] \<or> hd command \<noteq> EXIFTOOL_COMMAND then (NotFound, w)
      else
        let path = last command; args = butlast (tl command)
        in case w path of
             None \<Rightarrow> (Completed [] ''File not found'' 1, w)
           | Some f \<Rightarrow>
               if args = READ_ARGS
               then (if tool_reads f then (Completed (sim_output f) [] 0, w)
                     else (Completed [] ''Error'' 1, w))
               else if args = PROBE_ARGS
               then (if tool_writes f
                     then (Completed ''1 image files updated'' [] 0,
                           w(path \<mapsto> f\<lparr>tag_comment := None\<rparr>))
                     else (Completed [] ''Error'' 1, w))
               else
                 (case args of
                    [a, b, c, d] \<Rightarrow>
                      if a = ''-m'' \<and> b = ''-overwrite_original_in_place'' \<and>
                         take 18 c = ''-DateTimeOriginal='' \<and> take 13 d = ''-UserComment='' \<and>
                         tool_commits f
                      then (Completed ''1 image files updated'' [] 0,
                            w(path \<mapsto> f\<lparr>tag_datetime := sim_tag (drop 18 c),
                                           tag_comment := sim_tag (drop 13 d)\<rparr>))
                      else (Completed [] ''Error'' 1, w)
                  | _ \<Rightarrow> (Completed [] ''Error'' 1, w)))"

definition sim :: "sim_world system" where
  "sim = \<lparr>isfile = (\<lambda>w p. w p \<noteq> None),
          access_w = (\<lambda>w p. case w p of None \<Rightarrow> False | Some f \<Rightarrow> os_writable f),
          run = sim_run\<rparr>"


text \<open>Files for concrete runs: a photo with both tags, the same photo read-only, and the same
  photo on which the combined update fails.\<close>

definition photo :: sim_file where
  "photo = \<lparr>os_writable = True, tool_reads = True, tool_writes = True, tool_commits = True,
            tag_datetime = Some ''2020:01:01 12:00:00'', tag_comment = Some ''prior text''\<rparr>"

definition photo_locked :: sim_file where
  "photo_locked = photo\<lparr>os_writable := False\<rparr>"


definition fresh :: "string \<Rightarrow> exif_editor" where
  "fresh path = \<lparr>file_path = path, priv_date_time_original = None, priv_user_comment = None,
                 priv_writable = None, priv_metadata_read = False\<rparr>"

definition start_state :: "'w \<Rightarrow> 'w state" where
  "start_state w = \<lparr>world = w, trace = []\<rparr>"

text \<open>Worlds and a start time for concrete runs.\<close>

definition world_one :: sim_world where
  "world_one = [''a.jpg'' \<mapsto> photo]"

definition world_locked :: sim_world where
  "world_locked = [''b.jpg'' \<mapsto> photo_locked]"


definition world_three :: sim_world where
  "world_three = [''a.jpg'' \<mapsto> photo, ''b.jpg'' \<mapsto> photo_locked, ''c.jpg'' \<mapsto> photo]"

definition start_example :: datetime where
  "start_example = \<lparr>year = 2023, month = 10, day = 26, hour = 10, minute = 0, second = 0,
                     microsecond = 0\<rparr>"

text \<open>The accessor for \<^verbatim>\<open>a.jpg\<close> in \<open>world_one\<close> and the state, after \<^verbatim>\<open>read_metadata\<close>.\<close>

definition after_read :: "exif_editor \<times> sim_world state" where
  "after_read = snd (read_metadata sim (fresh ''a.jpg'') (start_state world_one))"


text \<open>
  \<open>ran args\<close>: the event is a run of \<^verbatim>\<open>exiftool\<close> with exactly the arguments \<open>args\<close> before
  the file name. \<open>writability_check\<close>: the event is one of the two steps of \<^verbatim>\<open>is_writable\<close>,
  the permission test or the trial write. \<open>passed_read\<close>: the event is a run of the read
  command that returned code 0, which is when \<^verbatim>\<open>read_metadata\<close> returns true.
\<close>

fun ran :: "string list \<Rightarrow> event \<Rightarrow> bool" where
  "ran args (Exec command r) = (command = [EXIFTOOL_COMMAND] @ args @ [last command])"
| "ran args _ = False"

fun writability_check :: "event \<Rightarrow> bool" where
  "writability_check (Access p b) = True"
| "writability_check ev = ran PROBE_ARGS ev"

fun passed_read :: "event \<Rightarrow> bool" where
  "passed_read (Exec command r) = (ran READ_ARGS (Exec command r) \<and> succeeded r)"
| "passed_read _ = False"



section \<open>Properties\<close>

subsection \<open>Parsing and formatting\<close>

text \<open>
  C3. The docstring of \<^verbatim>\<open>is_valid_datetime_format\<close> says that it checks whether the text
  matches \<^verbatim>\<open>YYYY:MM:DD HH:MM:SS\<close>, and \<^verbatim>\<open>timestamper.py\<close> reports a rejected start time as
  not of that form. The text \<^verbatim>\<open>2023:1:5 1:2:3\<close> has no zero padded fields and is not of the
  canonical form, yet \<^verbatim>\<open>parse_datetime\<close> returns a date for it and
  \<^verbatim>\<open>is_valid_datetime_format\<close> returns \<^verbatim>\<open>True\<close>.
\<close>

theorem non_padded_text_accepted:
  "canonical_fields ''2023:1:5 1:2:3'' = None \<and>
   parse_datetime (codepoints ''2023:1:5 1:2:3'') =
     Inr \<lparr>year = 2023, month = 1, day = 5, hour = 1, minute = 2, second = 3, microsecond = 0\<rparr> \<and>
   is_valid_datetime_format (codepoints ''2023:1:5 1:2:3'') = Inr True"
  by code_simp

text \<open>
  C4. The docstring of \<^verbatim>\<open>format_datetime\<close> says that it returns a text of the form
  \<^verbatim>\<open>YYYY:MM:DD HH:MM:SS\<close>. The text \<^verbatim>\<open>0999:01:02 03:04:05\<close> is canonical and names a valid
  date; \<^verbatim>\<open>parse_datetime\<close> accepts it, and \<^verbatim>\<open>format_datetime\<close> of the result is
  \<^verbatim>\<open>999:01:02 03:04:05\<close>, with a year of three digits: not the text that was parsed.
\<close>

theorem year_below_1000_not_restored:
  "canonical_valid ''0999:01:02 03:04:05'' \<and>
   map_sum id format_datetime (parse_datetime (codepoints ''0999:01:02 03:04:05'')) =
     Inr ''999:01:02 03:04:05''"
  by code_simp

subsection \<open>What each method does to the trace\<close>

lemma committed_append [simp]: "committed (xs @ ys) = committed xs @ committed ys"
  by (simp add: committed_def map_filter_def)

lemma committed_Nil [simp]: "committed [] = []"
  by (simp add: committed_def map_filter_def)

lemma committed_single: "committed [ev] = (case commit_of ev of None \<Rightarrow> [] | Some c \<Rightarrow> [c])"
  by (simp add: committed_def map_filter_def split: option.splits)


lemma commit_of_read: "commit_of (Exec (command_of e READ_ARGS) r) = None"
  by (simp add: command_of_def READ_ARGS_def EXIFTOOL_COMMAND_def)

lemma commit_of_probe: "commit_of (Exec (command_of e PROBE_ARGS) r) = None"
  by (simp add: command_of_def PROBE_ARGS_def EXIFTOOL_COMMAND_def)

lemma run_exiftool_effect:
  assumes "run_exiftool S e args s = (res, s')"
  shows "\<exists>r. trace s' = trace s @ [Exec (command_of e args) r] \<and>
           (case res of
              Inl x \<Rightarrow> x = FileNotFoundError \<and> \<not> succeeded r
            | Inr (out, err, rc) \<Rightarrow> (rc = 0) = succeeded r)"
  using assms
  by (auto simp: run_exiftool_def command_of_def emit_def Let_def
      split: prod.splits proc_result.splits)

lemma ExifEditor_init_effect:
  assumes "ExifEditor_init S p s = (res, s')"
  shows "world s' = world s \<and> trace s' = trace s @ [Isfile p (isfile S (world s) p)] \<and>
         (case res of
            Inl x \<Rightarrow> x = FileNotFoundError \<and> \<not> isfile S (world s) p
          | Inr e \<Rightarrow> isfile S (world s) p \<and>
              e = \<lparr>file_path = p, priv_date_time_original = None, priv_user_comment = None,
                   priv_writable = None, priv_metadata_read = False\<rparr>)"
  using assms by (auto simp: ExifEditor_init_def emit_def Let_def split: if_splits)

lemma read_metadata_effect:
  assumes "read_metadata S e s = (res, e', s')"
  shows "file_path e' = file_path e \<and> priv_writable e' = priv_writable e \<and>
         (priv_metadata_read e \<longrightarrow> res = Inr True \<and> e' = e \<and> s' = s) \<and>
         (\<not> priv_metadata_read e \<longrightarrow>
            (\<exists>r. trace s' = trace s @ [Exec (command_of e READ_ARGS) r] \<and>
                 (res = Inr True) = succeeded r) \<and>
            (res \<noteq> Inr True \<longrightarrow> e' = e)) \<and>
         (res = Inr True) = priv_metadata_read e'"
proof (cases "priv_metadata_read e")
  case True
  then show ?thesis using assms by (auto simp: read_metadata_def)
next
  case False
  obtain r0 s0 where r: "run_exiftool S e READ_ARGS s = (r0, s0)"
    by (cases "run_exiftool S e READ_ARGS s")
  from run_exiftool_effect[OF r] obtain pr where
    pr: "trace s0 = trace s @ [Exec (command_of e READ_ARGS) pr]"
        "(case r0 of Inl x \<Rightarrow> x = FileNotFoundError \<and> \<not> succeeded pr
            | Inr (out, err, rc) \<Rightarrow> (rc = 0) = succeeded pr)"
    by blast
  show ?thesis using assms False r pr
    by (auto simp: read_metadata_def Let_def split: sum.splits prod.splits if_splits)
qed

lemma is_writable_effect:
  assumes "is_writable S e s = (res, e', s')"
  shows "file_path e' = file_path e \<and>
         priv_date_time_original e' = priv_date_time_original e \<and>
         priv_user_comment e' = priv_user_comment e \<and>
         priv_metadata_read e' = priv_metadata_read e \<and>
         (\<forall>b. priv_writable e = Some b \<longrightarrow> res = Inr b \<and> e' = e \<and> s' = s) \<and>
         (priv_writable e = None \<longrightarrow>
            (\<exists>evs. trace s' =
                 trace s @ Access (file_path e) (access_w S (world s) (file_path e)) # evs \<and>
               (evs = [] \<or> (\<exists>r. evs = [Exec (command_of e PROBE_ARGS) r])))) \<and>
         (\<forall>b. res = Inr b \<longrightarrow> priv_writable e' = Some b)"
proof (cases "priv_writable e")
  case (Some b)
  then show ?thesis using assms by (auto simp: is_writable_def)
next
  case None
  let ?s1 = "emit (Access (file_path e) (access_w S (world s) (file_path e))) s"
  obtain r0 s0 where r: "run_exiftool S e PROBE_ARGS ?s1 = (r0, s0)"
    by (cases "run_exiftool S e PROBE_ARGS ?s1")
  from run_exiftool_effect[OF r] obtain pr where
    pr: "trace s0 = trace ?s1 @ [Exec (command_of e PROBE_ARGS) pr]"
    by blast
  show ?thesis using assms None r pr
    by (auto simp: is_writable_def Let_def emit_def split: sum.splits prod.splits if_splits)
qed

lemma date_time_original_read:
  "priv_metadata_read e \<Longrightarrow> date_time_original S e s = (Inr (priv_date_time_original e), e, s)"
  by (simp add: date_time_original_def)

lemma user_comment_read:
  "priv_metadata_read e \<Longrightarrow> user_comment S e s = (Inr (user_comment_value e), e, s)"
  by (simp add: user_comment_def)

lemma update_cases:
  assumes u: "update_datetime_and_comment S e dt a s = (res, e', s')"
  obtains
    (not_writable) x where "is_writable S e s = (x, e', s')" "x \<noteq> Inr True"
       "res = (case x of Inl er \<Rightarrow> Inl er | Inr _ \<Rightarrow> Inr False)"
  | (no_metadata) e1 s1 x where "is_writable S e s = (Inr True, e1, s1)"
       "\<not> priv_metadata_read e1" "read_metadata S e1 s1 = (x, e', s')" "x \<noteq> Inr True"
       "res = (case x of Inl er \<Rightarrow> Inl er | Inr _ \<Rightarrow> Inr False)"
  | (attempt) e1 s1 e2 s2 r0 where "is_writable S e s = (Inr True, e1, s1)"
       "(if \<not> priv_metadata_read e1 then read_metadata S e1 s1 else (Inr True, e1, s1))
          = (Inr True, e2, s2)"
       "priv_metadata_read e2"
       "run_exiftool S e2 (update_args dt (new_comment_of (user_comment_value e2) a)) s2 = (r0, s')"
       "(res, e') =
          (case r0 of
             Inl er \<Rightarrow> (Inl er, e2)
           | Inr (out, err, rc) \<Rightarrow>
               if rc = 0
               then (Inr True, e2\<lparr>priv_date_time_original := Some dt,
                       priv_user_comment := Some (new_comment_of (user_comment_value e2) a)\<rparr>)
               else (Inr False, e2))"
proof -
  obtain x e1 s1 where w: "is_writable S e s = (x, e1, s1)" by (cases "is_writable S e s")
  show ?thesis
  proof (cases "x = Inr True")
    case False
    then show ?thesis using u w not_writable[of x]
      by (auto simp: update_datetime_and_comment_def split: sum.splits)
  next
    case True
    obtain y e2 s2 where
      m: "(if \<not> priv_metadata_read e1 then read_metadata S e1 s1 else (Inr True, e1, s1)) = (y, e2, s2)"
      by (cases "if \<not> priv_metadata_read e1 then read_metadata S e1 s1 else (Inr True, e1, s1)")
    show ?thesis
    proof (cases "y = Inr True")
      case False
      then have nr: "\<not> priv_metadata_read e1" "read_metadata S e1 s1 = (y, e2, s2)"
        using m by (auto split: if_splits)
      show ?thesis using u w True m False nr no_metadata[of e1 s1 y]
        by (auto simp: update_datetime_and_comment_def split: sum.splits)
    next
      case y: True
      have rd: "priv_metadata_read e2"
        using m y read_metadata_effect[of S e1 s1 y e2 s2] by (auto split: if_splits)
      obtain r0 s3 where
        r: "run_exiftool S e2 (update_args dt (new_comment_of (user_comment_value e2) a)) s2 = (r0, s3)"
        by (cases "run_exiftool S e2 (update_args dt (new_comment_of (user_comment_value e2) a)) s2")
      have "s' = s3 \<and> (res, e') =
          (case r0 of
             Inl er \<Rightarrow> (Inl er, e2)
           | Inr (out, err, rc) \<Rightarrow>
               if rc = 0
               then (Inr True, e2\<lparr>priv_date_time_original := Some dt,
                       priv_user_comment := Some (new_comment_of (user_comment_value e2) a)\<rparr>)
               else (Inr False, e2))"
        using u w True m y rd r
        by (auto simp: update_datetime_and_comment_def user_comment_read Let_def
            split: sum.splits prod.splits if_splits)
      then show ?thesis using attempt[of e1 s1 e2 s2 r0] w True m y rd r by auto
    qed
  qed
qed

lemma attempted_update_simps [simp]:
  "\<not> attempted_update (Exec (command_of e READ_ARGS) r)"
  "\<not> attempted_update (Exec (command_of e PROBE_ARGS) r)"
  "attempted_update (Exec (command_of e (update_args dt c)) r)"
  by (simp_all add: command_of_def READ_ARGS_def PROBE_ARGS_def update_args_def
      EXIFTOOL_COMMAND_def)

lemma is_writable_no_update:
  assumes "is_writable S e s = (res, e', s')"
  shows "filter attempted_update (trace s') = filter attempted_update (trace s)"
  using is_writable_effect[OF assms]
  by (cases "priv_writable e") (auto simp: commit_of_probe)

lemma read_metadata_no_update:
  assumes "read_metadata S e s = (res, e', s')"
  shows "filter attempted_update (trace s') = filter attempted_update (trace s)"
  using read_metadata_effect[OF assms]
  by (cases "priv_metadata_read e") (auto simp: commit_of_read)

lemma ExifEditor_init_no_update:
  assumes "ExifEditor_init S p s = (res, s')"
  shows "filter attempted_update (trace s') = filter attempted_update (trace s)"
  using ExifEditor_init_effect[OF assms] by auto

subsection \<open>Files that are not writable\<close>

text \<open>
  C7. A file that is not writable never reaches the combined write. When \<^verbatim>\<open>is_writable\<close>
  answers false (write permission denied, or the trial write failed),
  \<^verbatim>\<open>update_datetime_and_comment\<close> returns false and does nothing beyond what \<^verbatim>\<open>is_writable\<close>
  did: the trace gains no run of the combined write; when the answer is already cached, it
  does nothing at all. In a run that is not a dry run, the loop counts such a file as
  skipped, logs it, and never runs the combined write for it.
\<close>

theorem not_writable_never_committed:
  "(is_writable S e s = (Inr False, e', s') \<longrightarrow>
      update_datetime_and_comment S e new_datetime_str comment_addition s = (Inr False, e', s') \<and>
      filter attempted_update (trace s') = filter attempted_update (trace s)) \<and>
   (priv_writable e = Some False \<longrightarrow>
      update_datetime_and_comment S e new_datetime_str comment_addition s = (Inr False, e, s)) \<and>
   (\<not> dry_run \<and>
    ExifEditor_init S path (emit (Log (LogProcessing (index + 1) n_files (basename path))) (sys L))
      = (Inr editor, s1) \<and>
    read_metadata S editor s1 = (Inr True, editor2, s2) \<and>
    is_writable S editor2 s2 = (Inr False, editor3, s3) \<longrightarrow>
      process_file S start_dt interval_delta fix_id dry_run n_files index path L =
        L\<lparr>skipped_count := skipped_count L + 1,
          sys := emit (Log (LogSkipNotWritable (basename path))) s3\<rparr> \<and>
      filter attempted_update (trace s3) = filter attempted_update (trace (sys L)))"
proof (intro conjI impI)
  assume w: "is_writable S e s = (Inr False, e', s')"
  then show "update_datetime_and_comment S e new_datetime_str comment_addition s = (Inr False, e', s')"
    by (simp add: update_datetime_and_comment_def)
  show "filter attempted_update (trace s') = filter attempted_update (trace s)"
    by (rule is_writable_no_update[OF w])
next
  assume "priv_writable e = Some False"
  then show "update_datetime_and_comment S e new_datetime_str comment_addition s = (Inr False, e, s)"
    by (simp add: update_datetime_and_comment_def is_writable_def)
next
  assume a: "\<not> dry_run \<and>
    ExifEditor_init S path (emit (Log (LogProcessing (index + 1) n_files (basename path))) (sys L))
      = (Inr editor, s1) \<and>
    read_metadata S editor s1 = (Inr True, editor2, s2) \<and>
    is_writable S editor2 s2 = (Inr False, editor3, s3)"
  then show "process_file S start_dt interval_delta fix_id dry_run n_files index path L =
        L\<lparr>skipped_count := skipped_count L + 1,
          sys := emit (Log (LogSkipNotWritable (basename path))) s3\<rparr>"
    by (simp add: process_file_def Let_def)
  from a have "filter attempted_update (trace s3) = filter attempted_update (trace s2)"
    "filter attempted_update (trace s2) = filter attempted_update (trace s1)"
    "filter attempted_update (trace s1) =
       filter attempted_update (trace (emit (Log (LogProcessing (index + 1) n_files (basename path))) (sys L)))"
    by (auto dest: is_writable_no_update read_metadata_no_update ExifEditor_init_no_update)
  then show "filter attempted_update (trace s3) = filter attempted_update (trace (sys L))"
    by (simp add: emit_def)
qed
theorem not_writable_never_committed_witness:
  "fst (is_writable sim (fresh ''b.jpg'') (start_state world_locked)) = Inr False \<and>
   update_datetime_and_comment sim (fresh ''b.jpg'') ''2023:10:26 10:00:00'' ''x''
       (start_state world_locked)
     = is_writable sim (fresh ''b.jpg'') (start_state world_locked) \<and>
   skipped_count (process_file sim start_example 30000000 ''123'' False 1 0 ''b.jpg''
       (loop_start (start_state world_locked))) = 1 \<and>
   filter attempted_update (trace (sys (process_file sim start_example 30000000 ''123'' False 1 0
       ''b.jpg'' (loop_start (start_state world_locked))))) = []"
proof -
  let ?L = "loop_start (start_state world_locked) :: sim_world loop"
  let ?W = "is_writable sim (fresh ''b.jpg'') (start_state world_locked)"
  let ?I = "ExifEditor_init sim ''b.jpg''
              (emit (Log (LogProcessing (0 + 1) 1 (basename ''b.jpg''))) (sys ?L))"
  let ?R = "read_metadata sim (fresh ''b.jpg'') (snd ?I)"
  let ?W2 = "is_writable sim (fst (snd ?R)) (snd (snd ?R))"
  have w: "fst ?W = Inr False" by code_simp
  then have w': "?W = (Inr False, fst (snd ?W), snd (snd ?W))"
    by (metis prod.collapse)
  have i: "fst ?I = Inr (fresh ''b.jpg'')" by code_simp
  then have i': "?I = (Inr (fresh ''b.jpg''), snd ?I)" by (metis prod.collapse)
  have r: "fst ?R = Inr True" by code_simp
  then have r': "?R = (Inr True, fst (snd ?R), snd (snd ?R))" by (metis prod.collapse)
  have w2: "fst ?W2 = Inr False" by code_simp
  then have w2': "?W2 = (Inr False, fst (snd ?W2), snd (snd ?W2))" by (metis prod.collapse)
  note t = not_writable_never_committed
    [of sim "fresh ''b.jpg''" "start_state world_locked" "fst (snd ?W)" "snd (snd ?W)"
        "''2023:10:26 10:00:00''" "''x''" False "''b.jpg''" 0 1 ?L "fresh ''b.jpg''" "snd ?I"
        "fst (snd ?R)" "snd (snd ?R)" "fst (snd ?W2)" "snd (snd ?W2)" start_example 30000000 "''123''"]
  from t w' have u: "update_datetime_and_comment sim (fresh ''b.jpg'') ''2023:10:26 10:00:00'' ''x''
       (start_state world_locked) = ?W" by simp
  from t i' r' w2' have p: "process_file sim start_example 30000000 ''123'' False 1 0 ''b.jpg'' ?L =
        ?L\<lparr>skipped_count := skipped_count ?L + 1,
          sys := emit (Log (LogSkipNotWritable (basename ''b.jpg''))) (snd (snd ?W2))\<rparr> \<and>
      filter attempted_update (trace (snd (snd ?W2))) = filter attempted_update (trace (sys ?L))"
    by simp
  show ?thesis using w u p
    by (simp add: emit_def loop_start_def start_state_def)
qed

subsection \<open>The combined write\<close>

lemma new_comment_of_eq:
  "new_comment_of c a = (if c \<noteq> [] \<and> a \<noteq> [] then c @ '' '' @ a else c @ a)"
  by (simp add: new_comment_of_def)

lemma user_comment_effect:
  assumes "user_comment S e s = (Inr c, e', s')" "priv_metadata_read e'"
  shows "(if \<not> priv_metadata_read e then read_metadata S e s else (Inr True, e, s)) = (Inr True, e', s')
         \<and> c = user_comment_value e'"
proof (cases "priv_metadata_read e")
  case True
  then show ?thesis using assms by (auto simp: user_comment_def)
next
  case False
  obtain x e1 s1 where r: "read_metadata S e s = (x, e1, s1)" by (cases "read_metadata S e s")
  with assms False have "e' = e1" "s' = s1" "c = user_comment_value e1"
    by (auto simp: user_comment_def split: sum.splits)
  moreover have "x = Inr True" using read_metadata_effect[OF r] assms(2) \<open>e' = e1\<close> by auto
  ultimately show ?thesis using r False by simp
qed

lemma update_after_read:
  assumes w: "is_writable S e s = (Inr True, e1, s1)"
    and rd: "(if \<not> priv_metadata_read e1 then read_metadata S e1 s1 else (Inr True, e1, s1))
              = (Inr True, e2, s2)"
    and m: "priv_metadata_read e2"
    and r: "run_exiftool S e2 (update_args dt (new_comment_of (user_comment_value e2) a)) s2 = (r0, s3)"
  shows "update_datetime_and_comment S e dt a s =
           (case r0 of
              Inl er \<Rightarrow> (Inl er, e2, s3)
            | Inr (out, err, rc) \<Rightarrow>
                if rc = 0
                then (Inr True, e2\<lparr>priv_date_time_original := Some dt,
                        priv_user_comment := Some (new_comment_of (user_comment_value e2) a)\<rparr>, s3)
                else (Inr False, e2, s3))"
  unfolding update_datetime_and_comment_def
  by (simp add: w rd m r user_comment_read Let_def split: sum.splits prod.splits)

text \<open>
  C6. Let \<open>current\<close> be the annotation \<^verbatim>\<open>update_datetime_and_comment\<close> works from (the value
  of the property \<^verbatim>\<open>user_comment\<close> once the file is known to be writable and its metadata is
  read). The method then runs exactly one more command, the combined write, whose
  \<^verbatim>\<open>-UserComment=\<close> argument is \<open>current\<close>, one space and the addition when both are not
  empty, and their plain concatenation otherwise; when that command succeeds the method
  returns true and the cached annotation is that text.
\<close>

theorem combined_comment_single_space:
  assumes w: "is_writable S e s = (Inr True, e1, s1)"
    and c: "user_comment S e1 s1 = (Inr current, e2, s2)"
    and m: "priv_metadata_read e2"
  shows "\<exists>r. trace (snd (snd (update_datetime_and_comment S e new_datetime_str addition s))) =
            trace s2 @
              [Exec (command_of e
                 [''-m'', ''-overwrite_original_in_place'',
                  ''-DateTimeOriginal='' @ new_datetime_str,
                  ''-UserComment='' @
                     (if current \<noteq> [] \<and> addition \<noteq> [] then current @ '' '' @ addition
                      else current @ addition)]) r] \<and>
           (fst (update_datetime_and_comment S e new_datetime_str addition s) = Inr True) = succeeded r \<and>
           (succeeded r \<longrightarrow>
              priv_user_comment (fst (snd (update_datetime_and_comment S e new_datetime_str addition s))) =
                Some (if current \<noteq> [] \<and> addition \<noteq> [] then current @ '' '' @ addition
                      else current @ addition))"
proof -
  let ?nc = "new_comment_of (user_comment_value e2) addition"
  from user_comment_effect[OF c m] have
    rd: "(if \<not> priv_metadata_read e1 then read_metadata S e1 s1 else (Inr True, e1, s1)) = (Inr True, e2, s2)"
    and cur: "current = user_comment_value e2" by auto
  have fp: "file_path e2 = file_path e"
    using is_writable_effect[OF w] rd read_metadata_effect[of S e1 s1 "Inr True" e2 s2]
    by (auto split: if_splits)
  obtain r0 s3 where r: "run_exiftool S e2 (update_args new_datetime_str ?nc) s2 = (r0, s3)"
    by (cases "run_exiftool S e2 (update_args new_datetime_str ?nc) s2")
  from run_exiftool_effect[OF r] obtain pr where
    pr: "trace s3 = trace s2 @ [Exec (command_of e2 (update_args new_datetime_str ?nc)) pr]"
        "(case r0 of Inl x \<Rightarrow> x = FileNotFoundError \<and> \<not> succeeded pr
            | Inr (out, err, rc) \<Rightarrow> (rc = 0) = succeeded pr)"
    by blast
  have ce: "command_of e2 = command_of e" using fp by (simp add: command_of_def fun_eq_iff)
  note u = update_after_read[OF w rd m r]
  have nc: "?nc = (if current \<noteq> [] \<and> addition \<noteq> [] then current @ '' '' @ addition
                      else current @ addition)"
    by (simp only: cur new_comment_of_eq)
  show ?thesis
    apply (rule exI[of _ pr])
    using pr ce nc
    by (cases r0) (auto simp: u update_args_def split: prod.splits if_splits)
qed


theorem combined_comment_single_space_witness:
  "fst (is_writable sim (fst after_read) (snd after_read)) = Inr True \<and>
   fst (user_comment sim (fst (snd (is_writable sim (fst after_read) (snd after_read))))
          (snd (snd (is_writable sim (fst after_read) (snd after_read))))) = Inr ''prior text'' \<and>
   fst (update_datetime_and_comment sim (fst after_read) ''2023:10:26 10:00:00'' ''x''
          (snd after_read)) = Inr True \<and>
   priv_user_comment (fst (snd (update_datetime_and_comment sim (fst after_read)
          ''2023:10:26 10:00:00'' ''x'' (snd after_read)))) = Some ''prior text x''"
proof -
  let ?W = "is_writable sim (fst after_read) (snd after_read)"
  let ?C = "user_comment sim (fst (snd ?W)) (snd (snd ?W))"
  let ?U = "update_datetime_and_comment sim (fst after_read) ''2023:10:26 10:00:00'' ''x''
          (snd after_read)"
  have w: "fst ?W = Inr True" by code_simp
  then have w': "?W = (Inr True, fst (snd ?W), snd (snd ?W))" by (metis prod.collapse)
  have c: "fst ?C = Inr ''prior text''" by code_simp
  then have c': "?C = (Inr ''prior text'', fst (snd ?C), snd (snd ?C))" by (metis prod.collapse)
  have m: "priv_metadata_read (fst (snd ?C))" by code_simp
  have u: "fst ?U = Inr True" by code_simp
  from combined_comment_single_space [OF w' c' m, of "''2023:10:26 10:00:00''" "''x''"]
  obtain r where "(fst ?U = Inr True) = succeeded r"
    "succeeded r \<longrightarrow> priv_user_comment (fst (snd ?U)) =
       Some (if ''prior text'' \<noteq> [] \<and> ''x'' \<noteq> [] then ''prior text'' @ '' '' @ ''x''
             else ''prior text'' @ ''x'')"
    by blast
  with u have "priv_user_comment (fst (snd ?U)) = Some ''prior text x''" by simp
  with w c u show ?thesis by simp
qed

lemma committed_Cons:
  "committed (ev # evs) = (case commit_of ev of None \<Rightarrow> [] | Some c \<Rightarrow> [c]) @ committed evs"
  by (simp add: committed_def map_filter_def split: option.splits)













subsection \<open>One iteration of the loop, case by case\<close>

lemma process_file_cases:
  fixes L :: "'w loop"
  assumes L': "L' = process_file S start_dt interval_delta fix_id dry_run n_files index path L"
    and s0: "s0 = emit (Log (LogProcessing (index + 1) n_files (basename path))) (sys L)"
    and fn: "fn = basename path"
  obtains
    (init_error) e s1 where
      "ExifEditor_init S path s0 = (Inl e, s1)" "L' = on_exception fn e s1 L"
  | (read_error) s1 e ed2 s2 where
      "ExifEditor_init S path s0 = (Inr (fresh path), s1)"
      "read_metadata S (fresh path) s1 = (Inl e, ed2, s2)" "L' = on_exception fn e s2 L"
  | (unreadable) s1 ed2 s2 where
      "ExifEditor_init S path s0 = (Inr (fresh path), s1)"
      "read_metadata S (fresh path) s1 = (Inr False, ed2, s2)"
      "L' = L\<lparr>skipped_count := skipped_count L + 1,
               sys := emit (Log (LogSkipUnreadable fn)) s2\<rparr>"
  | (writable_error) s1 ed2 s2 e ed3 s3 where
      "\<not> dry_run"
      "ExifEditor_init S path s0 = (Inr (fresh path), s1)"
      "read_metadata S (fresh path) s1 = (Inr True, ed2, s2)"
      "is_writable S ed2 s2 = (Inl e, ed3, s3)" "L' = on_exception fn e s3 L"
  | (not_writable) s1 ed2 s2 ed3 s3 where
      "\<not> dry_run"
      "ExifEditor_init S path s0 = (Inr (fresh path), s1)"
      "read_metadata S (fresh path) s1 = (Inr True, ed2, s2)"
      "is_writable S ed2 s2 = (Inr False, ed3, s3)"
      "L' = L\<lparr>skipped_count := skipped_count L + 1,
               sys := emit (Log (LogSkipNotWritable fn)) s3\<rparr>"
  | (overflow) s1 ed2 s2 ed3 s3 e where
      "ExifEditor_init S path s0 = (Inr (fresh path), s1)"
      "read_metadata S (fresh path) s1 = (Inr True, ed2, s2)"
      "(if \<not> dry_run then is_writable S ed2 s2 else (Inr True, ed2, s2)) = (Inr True, ed3, s3)"
      "timedelta_mul interval_delta (file_index L) = Inl e \<or>
       (\<exists>td. timedelta_mul interval_delta (file_index L) = Inr td \<and>
             datetime_add start_dt td = Inl e)"
      "L' = on_exception fn e s3 L"
  | (simulated) s1 ed2 s2 ed3 s3 td dt orig s4 where
      "dry_run"
      "ExifEditor_init S path s0 = (Inr (fresh path), s1)"
      "read_metadata S (fresh path) s1 = (Inr True, ed2, s2)"
      "(if \<not> dry_run then is_writable S ed2 s2 else (Inr True, ed2, s2)) = (Inr True, ed3, s3)"
      "timedelta_mul interval_delta (file_index L) = Inr td"
      "datetime_add start_dt td = Inr dt"
      "s4 = s3\<lparr>trace := trace s3 @
               [Log (LogOriginal orig), Log (LogCalculated (format_datetime dt)),
                Log (LogComment (fix_comment_of fix_id orig (format_datetime dt)))]\<rparr>"
      "L' = L\<lparr>processed_count := processed_count L + 1,
               sys := emit (Log (LogDryRun fn)) s4\<rparr>"
  | (update_error) s1 ed2 s2 ed3 s3 td dt orig s4 e ed5 s5 where
      "\<not> dry_run"
      "ExifEditor_init S path s0 = (Inr (fresh path), s1)"
      "read_metadata S (fresh path) s1 = (Inr True, ed2, s2)"
      "(if \<not> dry_run then is_writable S ed2 s2 else (Inr True, ed2, s2)) = (Inr True, ed3, s3)"
      "timedelta_mul interval_delta (file_index L) = Inr td"
      "datetime_add start_dt td = Inr dt"
      "s4 = s3\<lparr>trace := trace s3 @
               [Log (LogOriginal orig), Log (LogCalculated (format_datetime dt)),
                Log (LogComment (fix_comment_of fix_id orig (format_datetime dt)))]\<rparr>"
      "update_datetime_and_comment S ed3 (format_datetime dt)
         (fix_comment_of fix_id orig (format_datetime dt)) s4 = (Inl e, ed5, s5)"
      "L' = on_exception fn e s5 L"
  | (updated) s1 ed2 s2 ed3 s3 td dt orig s4 ed5 s5 where
      "\<not> dry_run"
      "ExifEditor_init S path s0 = (Inr (fresh path), s1)"
      "read_metadata S (fresh path) s1 = (Inr True, ed2, s2)"
      "(if \<not> dry_run then is_writable S ed2 s2 else (Inr True, ed2, s2)) = (Inr True, ed3, s3)"
      "timedelta_mul interval_delta (file_index L) = Inr td"
      "datetime_add start_dt td = Inr dt"
      "s4 = s3\<lparr>trace := trace s3 @
               [Log (LogOriginal orig), Log (LogCalculated (format_datetime dt)),
                Log (LogComment (fix_comment_of fix_id orig (format_datetime dt)))]\<rparr>"
      "update_datetime_and_comment S ed3 (format_datetime dt)
         (fix_comment_of fix_id orig (format_datetime dt)) s4 = (Inr True, ed5, s5)"
      "L' = L\<lparr>processed_count := processed_count L + 1,
               file_index := file_index L + 1,
               sys := emit (Log (LogUpdated fn)) s5\<rparr>"
  | (update_failed) s1 ed2 s2 ed3 s3 td dt orig s4 ed5 s5 where
      "\<not> dry_run"
      "ExifEditor_init S path s0 = (Inr (fresh path), s1)"
      "read_metadata S (fresh path) s1 = (Inr True, ed2, s2)"
      "(if \<not> dry_run then is_writable S ed2 s2 else (Inr True, ed2, s2)) = (Inr True, ed3, s3)"
      "timedelta_mul interval_delta (file_index L) = Inr td"
      "datetime_add start_dt td = Inr dt"
      "s4 = s3\<lparr>trace := trace s3 @
               [Log (LogOriginal orig), Log (LogCalculated (format_datetime dt)),
                Log (LogComment (fix_comment_of fix_id orig (format_datetime dt)))]\<rparr>"
      "update_datetime_and_comment S ed3 (format_datetime dt)
         (fix_comment_of fix_id orig (format_datetime dt)) s4 = (Inr False, ed5, s5)"
      "L' = L\<lparr>error_count := error_count L + 1,
               sys := emit (Log (LogFailed fn)) s5\<rparr>"
proof -
  obtain r1 s1 where i: "ExifEditor_init S path s0 = (r1, s1)"
    by (cases "ExifEditor_init S path s0")
  show thesis
  proof (cases r1)
    case (Inl e)
    show thesis
      by (rule init_error[of e s1]) (use i Inl L' s0 fn in \<open>simp_all add: process_file_def Let_def\<close>)
  next
    case (Inr ed)
    have ed: "ed = fresh path"
      using ExifEditor_init_effect[OF i] Inr by (simp add: fresh_def)
    note i' = i[unfolded Inr ed]
    obtain r2 ed2 s2 where rd: "read_metadata S (fresh path) s1 = (r2, ed2, s2)"
      by (cases "read_metadata S (fresh path) s1")
    show thesis
    proof (cases r2)
      case (Inl e)
      show thesis
        by (rule read_error[of s1 e ed2 s2])
           (use i' rd Inl L' s0 fn in \<open>simp_all add: process_file_def Let_def\<close>)
    next
      case r2: (Inr b)
      show thesis
      proof (cases b)
        case False
        show thesis
          by (rule unreadable[of s1 ed2 s2])
             (use i' rd r2 False L' s0 fn in \<open>simp_all add: process_file_def Let_def\<close>)
      next
        case True
        have rd': "read_metadata S (fresh path) s1 = (Inr True, ed2, s2)"
          using rd r2 True by simp
        have m2: "priv_metadata_read ed2" using read_metadata_effect[OF rd'] by simp
        obtain r3 ed3 s3 where
          w: "(if \<not> dry_run then is_writable S ed2 s2 else (Inr True, ed2, s2)) = (r3, ed3, s3)"
          by (cases "if \<not> dry_run then is_writable S ed2 s2 else (Inr True, ed2, s2)")
        have m3: "priv_metadata_read ed3"
          using w m2 is_writable_effect[of S ed2 s2 r3 ed3 s3] by (auto split: if_splits)
        note dto = date_time_original_read[OF m3]
        show thesis
        proof (cases r3)
          case (Inl e)
          then have nd: "\<not> dry_run" and w': "is_writable S ed2 s2 = (Inl e, ed3, s3)"
            using w by (auto split: if_splits)
          show thesis
            by (rule writable_error[of s1 ed2 s2 e ed3 s3])
               (use i' rd' w' nd L' s0 fn in \<open>simp_all add: process_file_def Let_def\<close>)
        next
          case r3: (Inr wr)
          show thesis
          proof (cases wr)
            case False
            then have nd: "\<not> dry_run" and w': "is_writable S ed2 s2 = (Inr False, ed3, s3)"
              using w r3 by (auto split: if_splits)
            show thesis
              by (rule not_writable[of s1 ed2 s2 ed3 s3])
                 (use i' rd' w' nd L' s0 fn in \<open>simp_all add: process_file_def Let_def\<close>)
          next
            case True
            have w': "(if \<not> dry_run then is_writable S ed2 s2 else (Inr True, ed2, s2))
                        = (Inr True, ed3, s3)"
              using w r3 True by simp
            have pre: "L' =
              (case timedelta_mul interval_delta (file_index L) of
                 Inl e \<Rightarrow> on_exception (basename path) e s3 L
               | Inr delta \<Rightarrow>
                 case datetime_add start_dt delta of
                   Inl e \<Rightarrow> on_exception (basename path) e s3 L
                 | Inr current_dt \<Rightarrow>
                   let new_datetime_str = format_datetime current_dt;
                       original_dt_str = py_str
                         (if priv_date_time_original ed3 \<noteq> None \<and>
                             priv_date_time_original ed3 \<noteq> Some []
                          then priv_date_time_original ed3 else Some ''None'');
                       fix_comment = fix_comment_of fix_id original_dt_str new_datetime_str;
                       s = emit (Log (LogComment fix_comment))
                             (emit (Log (LogCalculated new_datetime_str))
                               (emit (Log (LogOriginal original_dt_str)) s3))
                   in if dry_run
                      then L\<lparr>processed_count := processed_count L + 1,
                             sys := emit (Log (LogDryRun (basename path))) s\<rparr>
                      else case update_datetime_and_comment S ed3 new_datetime_str fix_comment s of
                             (Inl e, editor, s) \<Rightarrow> on_exception (basename path) e s L
                           | (Inr updated, editor, s) \<Rightarrow>
                               if updated
                               then L\<lparr>processed_count := processed_count L + 1,
                                      file_index := file_index L + 1,
                                      sys := emit (Log (LogUpdated (basename path))) s\<rparr>
                               else L\<lparr>error_count := error_count L + 1,
                                      sys := emit (Log (LogFailed (basename path))) s\<rparr>)"
              unfolding L' process_file_def Let_def
              using i' rd' w' s0 fn
              by (cases dry_run) (simp_all add: dto split: sum.splits)
            show thesis
            proof (cases "timedelta_mul interval_delta (file_index L)")
              case (Inl e)
              show thesis
                by (rule overflow[of s1 ed2 s2 ed3 s3 e])
                   (use i' rd' w' pre Inl fn in simp_all)
            next
              case td: (Inr td)
              show thesis
              proof (cases "datetime_add start_dt td")
                case (Inl e)
                show thesis
                  by (rule overflow[of s1 ed2 s2 ed3 s3 e])
                     (use i' rd' w' pre td Inl fn in simp_all)
              next
                case (Inr dt)
                let ?orig = "py_str
                         (if priv_date_time_original ed3 \<noteq> None \<and>
                             priv_date_time_original ed3 \<noteq> Some []
                          then priv_date_time_original ed3 else Some ''None'')"
                let ?new = "format_datetime dt"
                let ?s4 = "s3\<lparr>trace := trace s3 @
                   [Log (LogOriginal ?orig), Log (LogCalculated ?new),
                    Log (LogComment (fix_comment_of fix_id ?orig ?new))]\<rparr>"
                have s4: "emit (Log (LogComment (fix_comment_of fix_id ?orig ?new)))
                             (emit (Log (LogCalculated ?new))
                               (emit (Log (LogOriginal ?orig)) s3)) = ?s4"
                  by (simp add: emit_def)
                have fin: "L' =
                   (if dry_run
                      then L\<lparr>processed_count := processed_count L + 1,
                             sys := emit (Log (LogDryRun fn)) ?s4\<rparr>
                      else case update_datetime_and_comment S ed3 ?new
                                  (fix_comment_of fix_id ?orig ?new) ?s4 of
                             (Inl e, editor, s) \<Rightarrow> on_exception fn e s L
                           | (Inr updated, editor, s) \<Rightarrow>
                               if updated
                               then L\<lparr>processed_count := processed_count L + 1,
                                      file_index := file_index L + 1,
                                      sys := emit (Log (LogUpdated fn)) s\<rparr>
                               else L\<lparr>error_count := error_count L + 1,
                                      sys := emit (Log (LogFailed fn)) s\<rparr>)"
                  unfolding fn using pre td Inr s4 by (simp add: Let_def)
                show thesis
                proof (cases dry_run)
                  case True
                  show thesis
                    by (rule simulated[of s1 ed2 s2 ed3 s3 td dt ?s4 ?orig])
                       (use i' rd' w' td Inr True fin in simp_all)
                next
                  case False
                  obtain r5 ed5 s5 where
                    u: "update_datetime_and_comment S ed3 ?new
                          (fix_comment_of fix_id ?orig ?new) ?s4 = (r5, ed5, s5)"
                    by (cases "update_datetime_and_comment S ed3 ?new
                          (fix_comment_of fix_id ?orig ?new) ?s4")
                  show thesis
                  proof (cases r5)
                    case (Inl e)
                    show thesis
                      by (rule update_error[of s1 ed2 s2 ed3 s3 td dt ?s4 ?orig e ed5 s5])
                         (use i' rd' w' td Inr False fin u Inl in simp_all)
                  next
                    case r5: (Inr ok)
                    show thesis
                    proof (cases ok)
                      case True
                      show thesis
                        by (rule updated[of s1 ed2 s2 ed3 s3 td dt ?s4 ?orig ed5 s5])
                           (use i' rd' w' td Inr False fin u r5 True in simp_all)
                    next
                      case f: False
                      show thesis
                        by (rule update_failed[of s1 ed2 s2 ed3 s3 td dt ?s4 ?orig ed5 s5])
                           (use i' rd' w' td Inr False fin u r5 f in simp_all)
                    qed
                  qed
                qed
              qed
            qed
          qed
        qed
      qed
    qed
  qed
qed

subsection \<open>The counters\<close>

lemma process_file_counts:
  fixes L :: "'w loop"
  assumes L': "L' = process_file S start_dt interval_delta fix_id dry_run n_files index path L"
  shows "(processed_count L' = processed_count L + 1 \<and> skipped_count L' = skipped_count L \<and>
          error_count L' = error_count L) \<or>
         (processed_count L' = processed_count L \<and> skipped_count L' = skipped_count L + 1 \<and>
          error_count L' = error_count L) \<or>
         (processed_count L' = processed_count L \<and> skipped_count L' = skipped_count L \<and>
          error_count L' = error_count L + 1)"
  using L' refl refl
  by (cases rule: process_file_cases) (simp_all add: on_exception_def)

lemma process_loop_append:
  "process_loop S start_dt interval_delta fix_id dry_run n_files index (xs @ ys) L =
     process_loop S start_dt interval_delta fix_id dry_run n_files (index + int (length xs)) ys
       (process_loop S start_dt interval_delta fix_id dry_run n_files index xs L)"
  by (induction xs arbitrary: index L) (simp_all add: add.assoc)

lemma process_loop_counts:
  fixes L :: "'w loop"
  assumes "L' = process_loop S start_dt interval_delta fix_id dry_run n_files index files L"
  shows "processed_count L \<le> processed_count L' \<and> skipped_count L \<le> skipped_count L' \<and>
         error_count L \<le> error_count L' \<and>
         processed_count L' + skipped_count L' + error_count L' =
           processed_count L + skipped_count L + error_count L + int (length files)"
  using assms
proof (induction files arbitrary: index L L')
  case Nil
  then show ?case by simp
next
  case (Cons path files)
  let ?M = "process_file S start_dt interval_delta fix_id dry_run n_files index path L"
  from Cons.IH[of L' "index + 1" ?M] Cons.prems
  have "processed_count ?M \<le> processed_count L' \<and> skipped_count ?M \<le> skipped_count L' \<and>
         error_count ?M \<le> error_count L' \<and>
         processed_count L' + skipped_count L' + error_count L' =
           processed_count ?M + skipped_count ?M + error_count ?M + int (length files)"
    by simp
  moreover note process_file_counts[OF refl, where S=S and start_dt=start_dt and interval_delta=interval_delta
      and fix_id=fix_id and dry_run=dry_run and n_files=n_files and index=index and path=path
      and L=L]
  ultimately show ?case by auto
qed

text \<open>
  C9. After \<^verbatim>\<open>process_files\<close> the three counters add up to the number of files: every file
  raised exactly one of them by one. Over the pass no counter decreases: after any prefix
  \<open>seen\<close> of the list, each counter is at least 0 and at most its final value, and the three
  add up to the length of the prefix.
\<close>

theorem every_file_classified_once:
  "processed_count (process_files S files start_dt interval_delta fix_id dry_run s) +
   skipped_count (process_files S files start_dt interval_delta fix_id dry_run s) +
   error_count (process_files S files start_dt interval_delta fix_id dry_run s) = int (length files) \<and>
   (\<forall>seen rest. files = seen @ rest \<longrightarrow>
      (let before = process_loop S start_dt interval_delta fix_id dry_run (int (length files)) 0
                      seen (loop_start s);
           final = process_files S files start_dt interval_delta fix_id dry_run s
       in 0 \<le> processed_count before \<and> processed_count before \<le> processed_count final \<and>
          0 \<le> skipped_count before \<and> skipped_count before \<le> skipped_count final \<and>
          0 \<le> error_count before \<and> error_count before \<le> error_count final \<and>
          processed_count before + skipped_count before + error_count before = int (length seen)))"
proof (intro conjI allI impI)
  show "processed_count (process_files S files start_dt interval_delta fix_id dry_run s) +
   skipped_count (process_files S files start_dt interval_delta fix_id dry_run s) +
   error_count (process_files S files start_dt interval_delta fix_id dry_run s) = int (length files)"
    using process_loop_counts[OF refl, where S=S and start_dt=start_dt
        and interval_delta=interval_delta and fix_id=fix_id and dry_run=dry_run
        and n_files="int (length files)" and index=0 and files=files and L="loop_start s"]
    by (simp add: process_files_def loop_start_def)
next
  fix seen rest
  assume f: "files = seen @ rest"
  let ?n = "int (length files)"
  let ?B = "process_loop S start_dt interval_delta fix_id dry_run ?n 0 seen (loop_start s)"
  have fin: "process_files S files start_dt interval_delta fix_id dry_run s =
      process_loop S start_dt interval_delta fix_id dry_run ?n (0 + int (length seen)) rest ?B"
    unfolding process_files_def f by (simp only: process_loop_append)
  note b = process_loop_counts[OF refl, where S=S and start_dt=start_dt
        and interval_delta=interval_delta and fix_id=fix_id and dry_run=dry_run
        and n_files="?n" and index=0 and files=seen and L="loop_start s"]
  note r = process_loop_counts[OF refl, where S=S and start_dt=start_dt
        and interval_delta=interval_delta and fix_id=fix_id and dry_run=dry_run
        and n_files="?n" and index="0 + int (length seen)" and files=rest and L="?B"]
  show "let before = ?B; final = process_files S files start_dt interval_delta fix_id dry_run s
       in 0 \<le> processed_count before \<and> processed_count before \<le> processed_count final \<and>
          0 \<le> skipped_count before \<and> skipped_count before \<le> skipped_count final \<and>
          0 \<le> error_count before \<and> error_count before \<le> error_count final \<and>
          processed_count before + skipped_count before + error_count before = int (length seen)"
    unfolding Let_def fin using b r by (simp add: loop_start_def)
qed


theorem every_file_classified_once_witness:
  "[''a.jpg'', ''b.jpg'', ''c.jpg''] = [''a.jpg''] @ [''b.jpg'', ''c.jpg''] \<and>
   processed_count (process_files sim [''a.jpg'', ''b.jpg'', ''c.jpg''] start_example 30000000
      ''123'' False (start_state world_three)) = 2 \<and>
   skipped_count (process_files sim [''a.jpg'', ''b.jpg'', ''c.jpg''] start_example 30000000
      ''123'' False (start_state world_three)) = 1 \<and>
   error_count (process_files sim [''a.jpg'', ''b.jpg'', ''c.jpg''] start_example 30000000
      ''123'' False (start_state world_three)) = 0 \<and>
   processed_count (process_loop sim start_example 30000000 ''123'' False 3 0 [''a.jpg'']
      (loop_start (start_state world_three))) +
   skipped_count (process_loop sim start_example 30000000 ''123'' False 3 0 [''a.jpg'']
      (loop_start (start_state world_three))) +
   error_count (process_loop sim start_example 30000000 ''123'' False 3 0 [''a.jpg'']
      (loop_start (start_state world_three))) = 1 \<and>
   processed_count (process_loop sim start_example 30000000 ''123'' False 3 0 [''a.jpg'']
      (loop_start (start_state world_three)))
     \<le> processed_count (process_files sim [''a.jpg'', ''b.jpg'', ''c.jpg''] start_example 30000000
      ''123'' False (start_state world_three))"
proof -
  let ?F = "process_files sim [''a.jpg'', ''b.jpg'', ''c.jpg''] start_example 30000000
      ''123'' False (start_state world_three)"
  have p: "processed_count ?F = 2" by code_simp
  have k: "skipped_count ?F = 1" by code_simp
  have e: "error_count ?F = 0" by code_simp
  have a: "[''a.jpg'', ''b.jpg'', ''c.jpg''] = [''a.jpg''] @ [''b.jpg'', ''c.jpg'']" by simp
  from every_file_classified_once [of sim "[''a.jpg'', ''b.jpg'', ''c.jpg'']" start_example
      30000000 "''123''" False "start_state world_three"]
  have "\<forall>seen rest. [''a.jpg'', ''b.jpg'', ''c.jpg''] = seen @ rest \<longrightarrow>
      (let before = process_loop sim start_example 30000000 ''123'' False
                      (int (length [''a.jpg'', ''b.jpg'', ''c.jpg''])) 0
                      seen (loop_start (start_state world_three));
           final = ?F
       in 0 \<le> processed_count before \<and> processed_count before \<le> processed_count final \<and>
          0 \<le> skipped_count before \<and> skipped_count before \<le> skipped_count final \<and>
          0 \<le> error_count before \<and> error_count before \<le> error_count final \<and>
          processed_count before + skipped_count before + error_count before = int (length seen))"
    by blast
  from this[rule_format, OF a] p k e show ?thesis by (simp add: Let_def)
qed

subsection \<open>The timestamps a real run commits\<close>

lemma committed_emit_Log [simp]: "committed (trace (emit (Log x) s)) = committed (trace s)"
  by (simp add: emit_def committed_single)

lemma committed_Log_Cons [simp]: "committed (Log a # evs) = committed evs"
  by (simp add: committed_Cons)









subsection \<open>Dry runs\<close>

lemma day_of_year_range:
  assumes "check_date_fields y m d"
  shows "1 \<le> days_before_month y m + d \<and>
         days_before_month y m + d \<le> (if is_leap y then 366 else 365)"
proof -
  from assms have m: "1 \<le> m" "m \<le> 12" and d: "1 \<le> d" "d \<le> days_in_month y m"
    by (simp_all add: check_date_fields_def)
  from m have "m = 1 \<or> m = 2 \<or> m = 3 \<or> m = 4 \<or> m = 5 \<or> m = 6 \<or> m = 7 \<or> m = 8 \<or>
             m = 9 \<or> m = 10 \<or> m = 11 \<or> m = 12" by arith
  then show ?thesis using d
    by (elim disjE)
      (simp_all add: days_before_month_def days_in_month_def DAYS_BEFORE_MONTH_def
        DAYS_IN_MONTH_def split: if_splits)
qed

lemma days_before_year_range:
  assumes "1 \<le> y" "y \<le> 9998"
  shows "0 \<le> days_before_year y \<and> days_before_year y \<le> 3651404"
proof -
  define z where "z = y - 1"
  define a where "a = z div 4"
  define b where "b = z div 100"
  define c where "c = z div 400"
  have z: "0 \<le> z" "z \<le> 9997" using assms by (simp_all add: z_def)
  have cb: "c \<le> b" unfolding b_def c_def using zdiv_mono2[of z 100 400] z by simp
  have ba: "b \<le> a" unfolding a_def b_def using zdiv_mono2[of z 4 100] z by simp
  have c0: "0 \<le> c" unfolding c_def using z by simp
  have "a \<le> 9997 div 4" unfolding a_def using zdiv_mono1[of z 9997 4] z by simp
  then have a: "a \<le> 2499" by simp
  have eq: "days_before_year y = z * 365 + a - b + c"
    by (simp add: days_before_year_def Let_def z_def a_def b_def c_def)
  show ?thesis unfolding eq using z cb ba c0 a by linarith
qed

lemma ymd2ord_range:
  assumes "check_date_fields y m d"
  shows "0 < ymd2ord y m d \<and> ymd2ord y m d \<le> MAXORDINAL"
proof -
  from assms have y: "1 \<le> y" "y \<le> 9999"
    by (simp_all add: check_date_fields_def MINYEAR_def MAXYEAR_def)
  note doy = day_of_year_range[OF assms]
  show ?thesis
  proof (cases "y = 9999")
    case True
    have "days_before_year 9999 = 3651694" by (simp add: days_before_year_def)
    moreover have "\<not> is_leap 9999" by (simp add: is_leap_def)
    ultimately show ?thesis using doy True by (simp add: ymd2ord_def MAXORDINAL_def)
  next
    case False
    then have "y \<le> 9998" using y by simp
    from days_before_year_range[OF y(1) this] doy show ?thesis
      by (simp add: ymd2ord_def MAXORDINAL_def split: if_splits)
  qed
qed

lemma time_of_day_div:
  fixes n h mi s us :: int
  assumes "0 \<le> h" "h \<le> 23" "0 \<le> mi" "mi \<le> 59" "0 \<le> s" "s \<le> 59" "0 \<le> us" "us \<le> 999999"
  shows "((((n * 24 + h) * 60 + mi) * 60 + s) * 1000000 + us) div US_PER_DAY = n"
proof -
  define x where "x = h * 60 + mi"
  define t where "t = x * 60 + s"
  define r where "r = t * 1000000 + us"
  have x: "0 \<le> x" "x \<le> 1439" using assms unfolding x_def by linarith+
  have t: "0 \<le> t" "t \<le> 86399" using x assms unfolding t_def by linarith+
  have r: "0 \<le> r" "r < 86400000000" using t assms unfolding r_def by linarith+
  have "(((n * 24 + h) * 60 + mi) * 60 + s) * 1000000 + us = r + n * 86400000000"
    unfolding r_def t_def x_def by (simp add: algebra_simps)
  then have "((((n * 24 + h) * 60 + mi) * 60 + s) * 1000000 + us) div 86400000000
      = (r + n * 86400000000) div 86400000000" by simp
  also have "\<dots> = n + r div 86400000000" by simp
  also have "r div 86400000000 = 0" using r by (simp add: div_pos_pos_trivial)
  finally show ?thesis by (simp add: US_PER_DAY_def)
qed

lemma datetime_add_zero:
  assumes "valid_datetime dt"
  shows "\<exists>dt'. datetime_add dt 0 = Inr dt'"
proof -
  from assms have cd: "check_date_fields (year dt) (month dt) (day dt)"
    and ct: "check_time_fields (hour dt) (minute dt) (second dt) (microsecond dt)"
    by (simp_all add: valid_datetime_def)
  from ct have d: "((((ymd2ord (year dt) (month dt) (day dt) * 24 + hour dt) * 60 + minute dt) * 60
        + second dt) * 1000000 + microsecond dt) div US_PER_DAY
      = ymd2ord (year dt) (month dt) (day dt)"
    by (intro time_of_day_div) (simp_all add: check_time_fields_def)
  show ?thesis using d ymd2ord_range[OF cd]
    by (simp add: datetime_add_def Let_def split: prod.splits)
qed

lemma timedelta_mul_zero: "timedelta_mul td 0 = Inr 0"
  by (simp add: timedelta_mul_def new_timedelta_def)

lemma ran_command_of [simp]: "ran args (Exec (command_of e args) r)"
  by (simp add: command_of_def)

lemma not_probe_read [simp]: "\<not> ran PROBE_ARGS (Exec (command_of e READ_ARGS) r)"
  by (simp add: command_of_def PROBE_ARGS_def READ_ARGS_def)

lemma read_prefix_trace:
  assumes "ExifEditor_init S path s0 = (Inr (fresh path), s1)"
    and "read_metadata S (fresh path) s1 = (r2, ed2, s2)"
  shows "\<exists>r. trace s2 = trace s0 @ [Isfile path True, Exec (command_of (fresh path) READ_ARGS) r] \<and>
           (r2 = Inr True) = succeeded r"
proof -
  have a: "trace s1 = trace s0 @ [Isfile path True]"
    using ExifEditor_init_effect[OF assms(1)] by simp
  have "\<not> priv_metadata_read (fresh path)" by (simp add: fresh_def)
  with read_metadata_effect[OF assms(2)] obtain r where
    "trace s2 = trace s1 @ [Exec (command_of (fresh path) READ_ARGS) r]"
    "(r2 = Inr True) = succeeded r"
    by blast
  with a show ?thesis by simp
qed

lemma process_file_dry:
  fixes L :: "'w loop"
  assumes L': "L' = process_file S start_dt interval_delta fix_id True n_files index path L"
    and z: "file_index L = 0"
    and ok: "datetime_add start_dt 0 = Inr dt0"
  shows "\<exists>evs. trace (sys L') = trace (sys L) @ evs \<and>
           filter attempted_update evs = [] \<and> filter writability_check evs = [] \<and>
           processed_count L' = processed_count L + int (length (filter passed_read evs)) \<and>
           file_index L' = 0"
  using L' refl refl
proof (cases rule: process_file_cases)
  case (init_error e s1)
  have "trace s1 = trace (sys L) @
      [Log (LogProcessing (index + 1) n_files (basename path)),
       Isfile path (isfile S (world (sys L)) path)]"
    using ExifEditor_init_effect[OF init_error(1)] by (simp add: emit_def)
  then show ?thesis using init_error(2) z
    by (cases e) (simp_all add: on_exception_def emit_def commit_of_read del: ran.simps(1))
next
  case (read_error s1 e ed2 s2)
  from read_prefix_trace[OF read_error(1,2)] obtain r where
    "trace s2 = trace (sys L) @
      [Log (LogProcessing (index + 1) n_files (basename path)), Isfile path True,
       Exec (command_of (fresh path) READ_ARGS) r]" "\<not> succeeded r"
    by (auto simp: emit_def)
  then show ?thesis using read_error(3) z
    by (cases e) (simp_all add: on_exception_def emit_def commit_of_read del: ran.simps(1))
next
  case (unreadable s1 ed2 s2)
  from read_prefix_trace[OF unreadable(1,2)] obtain r where
    "trace s2 = trace (sys L) @
      [Log (LogProcessing (index + 1) n_files (basename path)), Isfile path True,
       Exec (command_of (fresh path) READ_ARGS) r]" "\<not> succeeded r"
    by (auto simp: emit_def)
  then show ?thesis using unreadable(3) z
    by (simp add: emit_def commit_of_read del: ran.simps(1))
next
  case (overflow s1 ed2 s2 ed3 s3 e)
  then show ?thesis using z ok by (simp add: timedelta_mul_zero)
next
  case (simulated s1 ed2 s2 ed3 s3 td dt orig s4)
  from read_prefix_trace[OF simulated(2,3)] obtain r where
    "trace s2 = trace (sys L) @
      [Log (LogProcessing (index + 1) n_files (basename path)), Isfile path True,
       Exec (command_of (fresh path) READ_ARGS) r]" "succeeded r"
    by (auto simp: emit_def)
  moreover have "s3 = s2" using simulated(4) by simp
  ultimately show ?thesis using simulated(7,8) z
    by (simp add: emit_def commit_of_read del: ran.simps(1))
qed simp_all

lemma process_loop_dry:
  fixes L :: "'w loop"
  assumes "L' = process_loop S start_dt interval_delta fix_id True n_files index files L"
    and "file_index L = 0"
    and "datetime_add start_dt 0 = Inr dt0"
  shows "\<exists>evs. trace (sys L') = trace (sys L) @ evs \<and>
           filter attempted_update evs = [] \<and> filter writability_check evs = [] \<and>
           processed_count L' = processed_count L + int (length (filter passed_read evs)) \<and>
           file_index L' = 0"
  using assms
proof (induction files arbitrary: index L L')
  case Nil
  then show ?case by simp
next
  case (Cons path files)
  let ?M = "process_file S start_dt interval_delta fix_id True n_files index path L"
  from process_file_dry[OF refl Cons.prems(2,3), where S=S and interval_delta=interval_delta
      and fix_id=fix_id and n_files=n_files and index=index and path=path]
  obtain evs1 where
    m: "trace (sys ?M) = trace (sys L) @ evs1"
       "filter attempted_update evs1 = []" "filter writability_check evs1 = []"
       "processed_count ?M = processed_count L + int (length (filter passed_read evs1))"
       "file_index ?M = 0"
    by blast
  from Cons.IH[of L' "index + 1" ?M] Cons.prems(1,3) m(5) obtain evs2 where
    n: "trace (sys L') = trace (sys ?M) @ evs2"
       "filter attempted_update evs2 = []" "filter writability_check evs2 = []"
       "processed_count L' = processed_count ?M + int (length (filter passed_read evs2))"
       "file_index L' = 0"
    by auto
  show ?case
    by (rule exI[of _ "evs1 @ evs2"]) (use m n in simp)
qed

text \<open>
  C5. In a dry run, for every environment and every list of files, started on a fresh
  trace with a start time that is a valid \<^verbatim>\<open>datetime\<close>: the combined write is never run,
  no step of \<^verbatim>\<open>is_writable\<close> is performed (neither the permission test nor the trial
  write), and the final count of files reported as processed is exactly the number of
  runs of the read command that returned code 0, that is, the number of files for which
  \<^verbatim>\<open>read_metadata\<close> returned true. The success counter \<^verbatim>\<open>file_index\<close> stays 0.
\<close>

theorem dry_run_reads_only:
  assumes "valid_datetime start_dt"
  shows "filter attempted_update
           (trace (sys (process_files S files start_dt interval_delta fix_id True
                          (start_state w)))) = [] \<and>
         filter writability_check
           (trace (sys (process_files S files start_dt interval_delta fix_id True
                          (start_state w)))) = [] \<and>
         processed_count (process_files S files start_dt interval_delta fix_id True
                            (start_state w)) =
           int (length (filter passed_read
             (trace (sys (process_files S files start_dt interval_delta fix_id True
                            (start_state w)))))) \<and>
         file_index (process_files S files start_dt interval_delta fix_id True
                       (start_state w)) = 0"
proof -
  from datetime_add_zero[OF assms] obtain dt0 where d: "datetime_add start_dt 0 = Inr dt0" ..
  have z: "file_index (loop_start (start_state w)) = 0" by (simp add: loop_start_def)
  from process_loop_dry[OF refl z d, where S=S and interval_delta=interval_delta
      and fix_id=fix_id and n_files="int (length files)" and index=0 and files=files]
  show ?thesis
    by (auto simp: process_files_def loop_start_def start_state_def)
qed

theorem dry_run_reads_only_witness:
  "valid_datetime start_example \<and>
   processed_count (process_files sim [''a.jpg'', ''b.jpg'', ''missing.jpg'', ''c.jpg'']
       start_example 30000000 ''123'' True (start_state world_three)) = 3 \<and>
   length (filter passed_read (trace (sys (process_files sim
       [''a.jpg'', ''b.jpg'', ''missing.jpg'', ''c.jpg'']
       start_example 30000000 ''123'' True (start_state world_three))))) = 3 \<and>
   filter writability_check (trace (sys (process_files sim
       [''a.jpg'', ''b.jpg'', ''missing.jpg'', ''c.jpg'']
       start_example 30000000 ''123'' True (start_state world_three)))) = []"
proof -
  have v: "valid_datetime start_example" by code_simp
  have p: "processed_count (process_files sim [''a.jpg'', ''b.jpg'', ''missing.jpg'', ''c.jpg'']
       start_example 30000000 ''123'' True (start_state world_three)) = 3"
    by code_simp
  from dry_run_reads_only [OF v, where S=sim
      and files="[''a.jpg'', ''b.jpg'', ''missing.jpg'', ''c.jpg'']"
      and interval_delta=30000000 and fix_id="''123''" and w=world_three] v p
  show ?thesis by simp
qed

subsection \<open>What a dry run displays\<close>


subsection \<open>The trial write and the lazy read\<close>

lemma is_writable_fresh:
  assumes "is_writable S e s = (Inr True, e1, s1)" "priv_writable e = None"
  shows "access_w S (world s) (file_path e) \<and> e1 = e\<lparr>priv_writable := Some True\<rparr> \<and>
         (\<exists>r. run S (world s) (command_of e PROBE_ARGS) = (r, world s1) \<and> succeeded r \<and>
              trace s1 = trace s @ [Access (file_path e) True, Exec (command_of e PROBE_ARGS) r])"
proof -
  obtain r w where r: "run S (world s) (command_of e PROBE_ARGS) = (r, w)"
    by (cases "run S (world s) (command_of e PROBE_ARGS)")
  show ?thesis
    by (cases r)
      (use assms r in \<open>auto simp: is_writable_def run_exiftool_def command_of_def emit_def Let_def
         split: if_splits\<close>)
qed

lemma read_metadata_fresh:
  assumes "read_metadata S e s = (Inr True, e2, s2)" "\<not> priv_metadata_read e"
  shows "file_path e2 = file_path e \<and>
         (\<exists>r. run S (world s) (command_of e READ_ARGS) = (r, world s2) \<and> succeeded r \<and>
              trace s2 = trace s @ [Exec (command_of e READ_ARGS) r])"
proof -
  obtain r w where r: "run S (world s) (command_of e READ_ARGS) = (r, w)"
    by (cases "run S (world s) (command_of e READ_ARGS)")
  show ?thesis
    by (cases r)
      (use assms r in \<open>auto simp: read_metadata_def run_exiftool_def command_of_def emit_def Let_def
         split: if_splits\<close>)
qed

lemma command_of_cong: "file_path e2 = file_path e \<Longrightarrow> command_of e2 args = command_of e args"
  by (simp add: command_of_def)

lemma update_no_attempt:
  assumes "update_datetime_and_comment S e dt a s = (res, e', s')"
  shows "filter attempted_update (trace s') = filter attempted_update (trace s) \<or>
         (\<exists>e1 s1 e2 s2 result.
            is_writable S e s = (Inr True, e1, s1) \<and>
            (if \<not> priv_metadata_read e1 then read_metadata S e1 s1 else (Inr True, e1, s1))
              = (Inr True, e2, s2) \<and>
            trace s' = trace s2 @
              [Exec (command_of e (update_args dt (new_comment_of (user_comment_value e2) a)))
                 result])"
  using assms
proof (cases rule: update_cases)
  case (not_writable x)
  then show ?thesis using is_writable_no_update[OF not_writable(1)] by simp
next
  case (no_metadata e1 s1 x)
  then show ?thesis
    using is_writable_no_update[OF no_metadata(1)] read_metadata_no_update[OF no_metadata(3)]
    by simp
next
  case (attempt e1 s1 e2 s2 r0)
  let ?args = "update_args dt (new_comment_of (user_comment_value e2) a)"
  from run_exiftool_effect[OF attempt(4)] obtain r where
    r: "trace s' = trace s2 @ [Exec (command_of e2 ?args) r]" by blast
  have "file_path e1 = file_path e" using is_writable_effect[OF attempt(1)] by simp
  moreover have "file_path e2 = file_path e1"
    using attempt(2) read_metadata_effect[of S e1 s1 "Inr True" e2 s2] by (auto split: if_splits)
  ultimately have "command_of e2 ?args = command_of e ?args" by (simp add: command_of_def)
  with r attempt(1,2) show ?thesis by auto
qed

text \<open>
  C10. \<^verbatim>\<open>update_datetime_and_comment\<close> on an accessor that has not asked \<^verbatim>\<open>is_writable\<close>
  before. Either the call does not get to the combined write, or the following happened,
  in this order. If metadata had not been read: the permission test, the trial write
  \<^verbatim>\<open>-UserComment=\<close> (a real run of the tool, which succeeded and changed the outside world
  to that of \<open>s1\<close>), then the lazy \<^verbatim>\<open>read_metadata\<close>, run on the world the trial write left,
  and then the combined write, whose comment is built from the annotation this read
  returned, that is, the annotation after the trial write and not the one the file had
  before the call. If metadata had been read before the call: the permission test, the
  trial write and the combined write, whose comment is built from the annotation cached
  before the call; the tool is not asked again.
\<close>

theorem trial_write_precedes_lazy_read:
  assumes "update_datetime_and_comment S e new_datetime_str addition s = (res, e', s')"
    and "priv_writable e = None"
  shows "(\<not> priv_metadata_read e \<longrightarrow>
            filter attempted_update (trace s') = filter attempted_update (trace s) \<or>
            (\<exists>e1 s1 e2 s2 probe reading result.
               access_w S (world s) (file_path e) \<and>
               run S (world s) (command_of e PROBE_ARGS) = (probe, world s1) \<and>
               succeeded probe \<and>
               is_writable S e s = (Inr True, e1, s1) \<and>
               run S (world s1) (command_of e READ_ARGS) = (reading, world s2) \<and>
               succeeded reading \<and>
               read_metadata S e1 s1 = (Inr True, e2, s2) \<and>
               trace s' = trace s @
                 [Access (file_path e) True,
                  Exec (command_of e PROBE_ARGS) probe,
                  Exec (command_of e READ_ARGS) reading,
                  Exec (command_of e (update_args new_datetime_str
                          (new_comment_of (user_comment_value e2) addition))) result])) \<and>
         (priv_metadata_read e \<longrightarrow>
            filter attempted_update (trace s') = filter attempted_update (trace s) \<or>
            (\<exists>probe result.
               trace s' = trace s @
                 [Access (file_path e) True,
                  Exec (command_of e PROBE_ARGS) probe,
                  Exec (command_of e (update_args new_datetime_str
                          (new_comment_of (user_comment_value e) addition))) result]))"
proof (cases "filter attempted_update (trace s') = filter attempted_update (trace s)")
  case True
  then show ?thesis by simp
next
  case False
  with update_no_attempt[OF assms(1)] obtain e1 s1 e2 s2 result where
    w: "is_writable S e s = (Inr True, e1, s1)"
    and m: "(if \<not> priv_metadata_read e1 then read_metadata S e1 s1 else (Inr True, e1, s1))
              = (Inr True, e2, s2)"
    and t: "trace s' = trace s2 @
              [Exec (command_of e (update_args new_datetime_str
                      (new_comment_of (user_comment_value e2) addition))) result]"
    by blast
  from is_writable_fresh[OF w assms(2)] obtain probe where
    p: "access_w S (world s) (file_path e)" "e1 = e\<lparr>priv_writable := Some True\<rparr>"
       "run S (world s) (command_of e PROBE_ARGS) = (probe, world s1)" "succeeded probe"
       "trace s1 = trace s @ [Access (file_path e) True, Exec (command_of e PROBE_ARGS) probe]"
    by blast
  show ?thesis
  proof (cases "priv_metadata_read e")
    case True
    then have "e2 = e1" "s2 = s1" using m p(2) by simp_all
    then have "trace s' = trace s @
                 [Access (file_path e) True,
                  Exec (command_of e PROBE_ARGS) probe,
                  Exec (command_of e (update_args new_datetime_str
                          (new_comment_of (user_comment_value e) addition))) result]"
      using t p(2,5) by (simp add: user_comment_value_def)
    then show ?thesis using True by blast
  next
    case False
    then have nr: "\<not> priv_metadata_read e1" using p(2) by simp
    then have rd: "read_metadata S e1 s1 = (Inr True, e2, s2)" using m by simp
    from read_metadata_fresh[OF rd nr] obtain reading where
      r: "run S (world s1) (command_of e1 READ_ARGS) = (reading, world s2)" "succeeded reading"
         "trace s2 = trace s1 @ [Exec (command_of e1 READ_ARGS) reading]"
      by blast
    have c: "command_of e1 READ_ARGS = command_of e READ_ARGS"
      using p(2) by (simp add: command_of_def)
    have "trace s' = trace s @
                 [Access (file_path e) True,
                  Exec (command_of e PROBE_ARGS) probe,
                  Exec (command_of e READ_ARGS) reading,
                  Exec (command_of e (update_args new_datetime_str
                          (new_comment_of (user_comment_value e2) addition))) result]"
      using t p(5) r(3) c by simp
    with p(1,3,4) w r(1,2) rd c False show ?thesis by auto
  qed
qed

theorem trial_write_precedes_lazy_read_witness:
  "tag_comment photo = Some ''prior text'' \<and>
   committed (trace (snd (snd (update_datetime_and_comment sim (fresh ''a.jpg'')
       ''2023:10:26 10:00:00'' ''x'' (start_state world_one)))))
     = [(''a.jpg'', ''2023:10:26 10:00:00'', ''x'')] \<and>
   committed (trace (snd (snd (update_datetime_and_comment sim (fst after_read)
       ''2023:10:26 10:00:00'' ''x'' (snd after_read)))))
     = [(''a.jpg'', ''2023:10:26 10:00:00'', ''prior text x'')] \<and>
   (\<exists>probe reading result c.
      trace (snd (snd (update_datetime_and_comment sim (fresh ''a.jpg'')
         ''2023:10:26 10:00:00'' ''x'' (start_state world_one)))) =
        [Access ''a.jpg'' True,
         Exec (command_of (fresh ''a.jpg'') PROBE_ARGS) probe,
         Exec (command_of (fresh ''a.jpg'') READ_ARGS) reading,
         Exec (command_of (fresh ''a.jpg'')
                 (update_args ''2023:10:26 10:00:00'' (new_comment_of c ''x''))) result])"
proof -
  let ?U = "update_datetime_and_comment sim (fresh ''a.jpg'') ''2023:10:26 10:00:00'' ''x''
              (start_state world_one)"
  let ?V = "update_datetime_and_comment sim (fst after_read) ''2023:10:26 10:00:00'' ''x''
              (snd after_read)"
  have p: "tag_comment photo = Some ''prior text''" by (simp add: photo_def)
  have cu: "committed (trace (snd (snd ?U))) = [(''a.jpg'', ''2023:10:26 10:00:00'', ''x'')]"
    by code_simp
  have cv: "committed (trace (snd (snd ?V)))
      = [(''a.jpg'', ''2023:10:26 10:00:00'', ''prior text x'')]"
    by code_simp
  have n: "filter attempted_update (trace (snd (snd ?U))) \<noteq> []" by code_simp
  have f: "priv_writable (fresh ''a.jpg'') = None" "\<not> priv_metadata_read (fresh ''a.jpg'')"
    "file_path (fresh ''a.jpg'') = ''a.jpg''"
    by (simp_all add: fresh_def)
  have u: "?U = (fst ?U, fst (snd ?U), snd (snd ?U))" by simp
  from trial_write_precedes_lazy_read [OF u f(1)] f(2) n
  have "\<exists>probe reading result c.
      trace (snd (snd ?U)) =
        [Access ''a.jpg'' True,
         Exec (command_of (fresh ''a.jpg'') PROBE_ARGS) probe,
         Exec (command_of (fresh ''a.jpg'') READ_ARGS) reading,
         Exec (command_of (fresh ''a.jpg'')
                 (update_args ''2023:10:26 10:00:00'' (new_comment_of c ''x''))) result]"
    by (auto simp: start_state_def f(3))
  with p cu cv show ?thesis by blast
qed

end
